theory Spec2Isabelle
  imports Main "HOL-Library.Word"
begin

section \<open>Go strings and the library functions the provider calls\<close>

text \<open>
  A Go string is read by \<^verbatim>\<open>strings.TrimSpace\<close>, \<^verbatim>\<open>strings.Fields\<close> and the
  \<^verbatim>\<open>regexp\<close> package rune by rune.  Terraform values and decoded JSON are valid UTF-8,
  so a string is modelled by the sequence of its runes (Unicode code points).
\<close>

type_synonym rune = nat
type_synonym gostring = "rune list"

definition S :: "string \<Rightarrow> gostring" where
  "S cs = map of_char cs"

definition CR :: rune where "CR = 13"
definition LF :: rune where "LF = 10"
definition SP :: rune where "SP = 32"
definition GT :: rune where "GT = 62"
definition LT :: rune where "LT = 60"

text \<open>\<^verbatim>\<open>unicode.IsSpace\<close>: the Latin-1 switch and the White\_Space range table.\<close>

definition IsSpace :: "rune \<Rightarrow> bool" where
  "IsSpace r \<longleftrightarrow>
     (9 \<le> r \<and> r \<le> 13) \<or> r = 32 \<or> r = 133 \<or> r = 160 \<or> r = 5760 \<or>
     (8192 \<le> r \<and> r \<le> 8202) \<or> r = 8232 \<or> r = 8233 \<or> r = 8239 \<or> r = 8287 \<or>
     r = 12288"

text \<open>The Perl class \<^verbatim>\<open>\s\<close> of Go's \<^verbatim>\<open>regexp/syntax\<close>: tab, LF, FF, CR and space only.\<close>

definition reSpace :: "rune \<Rightarrow> bool" where
  "reSpace r \<longleftrightarrow> r = 9 \<or> r = 10 \<or> r = 12 \<or> r = 13 \<or> r = 32"

text \<open>
  \<^verbatim>\<open>strings.ReplaceAll(s, old, new)\<close>.  For a non-empty \<^verbatim>\<open>old\<close> the non-overlapping
  occurrences are replaced from the left (\<open>ReplaceAll_scan\<close>); an empty \<^verbatim>\<open>old\<close> matches
  at the beginning of the string and after each rune.
\<close>

function ReplaceAll_scan :: "gostring \<Rightarrow> gostring \<Rightarrow> gostring \<Rightarrow> gostring" where
  "ReplaceAll_scan s old new =
     (case s of
        [] \<Rightarrow> []
      | c # cs \<Rightarrow>
          if old \<noteq> [] \<and> take (length old) s = old
          then new @ ReplaceAll_scan (drop (length old) s) old new
          else c # ReplaceAll_scan cs old new)"
  by pat_completeness auto
termination
  by (relation "measure (\<lambda>(s, old, new). length s)") (auto simp: Suc_le_eq)

declare ReplaceAll_scan.simps [simp del]

definition ReplaceAll :: "gostring \<Rightarrow> gostring \<Rightarrow> gostring \<Rightarrow> gostring" where
  "ReplaceAll s old new =
     (if old = [] then new @ concat (map (\<lambda>c. c # new) s) else ReplaceAll_scan s old new)"

text \<open>\<^verbatim>\<open>strings.TrimSpace\<close>: leading and trailing white space, as \<^verbatim>\<open>unicode.IsSpace\<close> has it.\<close>

definition TrimSpace :: "gostring \<Rightarrow> gostring" where
  "TrimSpace s = rev (dropWhile IsSpace (rev (dropWhile IsSpace s)))"

text \<open>
  \<^verbatim>\<open>strings.FieldsFunc\<close>: one pass over the runes; \<^verbatim>\<open>start\<close> is the field being read,
  if any, and a field is closed at the next separator or at the end of the string.
\<close>

fun FieldsFunc_loop :: "(rune \<Rightarrow> bool) \<Rightarrow> gostring option \<Rightarrow> gostring \<Rightarrow> gostring list" where
  "FieldsFunc_loop f None [] = []"
| "FieldsFunc_loop f (Some w) [] = [w]"
| "FieldsFunc_loop f start (r # rs) =
     (if f r
      then (case start of
              Some w \<Rightarrow> w # FieldsFunc_loop f None rs
            | None \<Rightarrow> FieldsFunc_loop f None rs)
      else (case start of
              Some w \<Rightarrow> FieldsFunc_loop f (Some (w @ [r])) rs
            | None \<Rightarrow> FieldsFunc_loop f (Some [r]) rs))"

definition Fields :: "gostring \<Rightarrow> gostring list" where
  "Fields s = FieldsFunc_loop IsSpace None s"

text \<open>\<^verbatim>\<open>strings.Join\<close>.\<close>

fun Join :: "gostring list \<Rightarrow> gostring \<Rightarrow> gostring" where
  "Join [] sep = []"
| "Join [e] sep = e"
| "Join (e # es) sep = e @ sep @ Join es sep"

text \<open>
  \<^verbatim>\<open>regexp.MustCompile(`>[\s]*<`).ReplaceAllString(s, "><")\<close>: at a \<^verbatim>\<open>>\<close>, the match
  takes the longest run of \<^verbatim>\<open>\s\<close> and needs a \<^verbatim>\<open><\<close> after it; the search resumes
  after the match.  The replacement holds no \<^verbatim>\<open>$\<close>, so it is literal.
\<close>

function ReplaceAllString_tags :: "gostring \<Rightarrow> gostring" where
  "ReplaceAllString_tags [] = []"
| "ReplaceAllString_tags (c # cs) =
     (if c = GT
      then (case dropWhile reSpace cs of
              [] \<Rightarrow> c # ReplaceAllString_tags cs
            | d # ds \<Rightarrow>
                if d = LT then [GT, LT] @ ReplaceAllString_tags ds
                else c # ReplaceAllString_tags cs)
      else c # ReplaceAllString_tags cs)"
  by pat_completeness auto
termination
proof (relation "measure length")
  fix c :: rune and cs d ds
  assume "dropWhile reSpace cs = d # ds"
  then have "length (d # ds) \<le> length cs"
    using length_dropWhile_le [of reSpace cs] by simp
  then show "(ds, c # cs) \<in> measure length" by simp
qed auto

subsection \<open>\<^verbatim>\<open>normalizeHTML\<close> and the plan modifier's inline \<^verbatim>\<open>normalize\<close>\<close>

definition normalizeHTML :: "gostring \<Rightarrow> gostring" where
  "normalizeHTML raw =
     (let s = ReplaceAll raw [CR, LF] [LF];
          s = TrimSpace s;
          s = Join (Fields s) [SP];
          s = ReplaceAllString_tags s
      in s)"

text \<open>The closure \<^verbatim>\<open>normalize\<close> of \<^verbatim>\<open>PlanModifyString\<close>, named \<open>normalize_inline\<close> here.\<close>

definition normalize_inline :: "gostring \<Rightarrow> gostring" where
  "normalize_inline raw =
     (let s = ReplaceAll raw [CR, LF] [LF];
          s = TrimSpace s;
          s = Join (Fields s) [SP];
          s = ReplaceAllString_tags s
      in s)"

section \<open>Formatting and scanning integers (\<^verbatim>\<open>fmt\<close>)\<close>

type_synonym int64 = "64 word"

text \<open>
  An \<^verbatim>\<open>int64\<close> is a 64-bit word read as signed (\<^verbatim>\<open>sint\<close>).
  \<^verbatim>\<open>fmt.Sprintf("%d", id)\<close>: the decimal digits, after a minus sign if negative.
\<close>

function decimal :: "nat \<Rightarrow> gostring" where
  "decimal n = (if n < 10 then [48 + n] else decimal (n div 10) @ [48 + n mod 10])"
  by pat_completeness auto
termination
  by (relation "measure id") auto

declare decimal.simps [simp del]

definition Sprintf_d :: "int64 \<Rightarrow> gostring" where
  "Sprintf_d i = (if sint i < 0 then 45 # decimal (nat (- sint i)) else decimal (nat (sint i)))"

text \<open>
  \<^verbatim>\<open>fmt.Sscanf(str, "%d", &v)\<close>.  The scanner reads at most \<^verbatim>\<open>hugeWid = 1 << 30\<close> runes.
  \<^verbatim>\<open>doScanf\<close> skips leading space before the verb (\<^verbatim>\<open>SkipSpace\<close>: a newline is an error for
  \<^verbatim>\<open>Sscanf\<close>, a CR before a newline is passed over), \<^verbatim>\<open>scanInt\<close> skips space again, fails
  at the end of input, accepts one sign, needs one digit, takes the digits that follow and
  hands the token to \<^verbatim>\<open>strconv.ParseInt(tok, 10, 64)\<close>.  Every failure panics inside the
  scanner, is recovered as the returned error, and leaves \<^verbatim>\<open>v\<close> as it was.
\<close>

datatype scan_error = UnexpectedNewline | EndOfInput | ExpectedInteger | ErrRange

definition hugeWid :: nat where
  "hugeWid = 1073741824"

fun SkipSpace :: "gostring \<Rightarrow> scan_error + gostring" where
  "SkipSpace [] = Inr []"
| "SkipSpace (r # rs) =
     (if r = CR \<and> (case rs of [] \<Rightarrow> False | n # _ \<Rightarrow> n = LF) then SkipSpace rs
      else if r = LF then Inl UnexpectedNewline
      else if \<not> IsSpace r then Inr (r # rs)
      else SkipSpace rs)"

definition isDigit :: "rune \<Rightarrow> bool" where
  "isDigit r \<longleftrightarrow> 48 \<le> r \<and> r \<le> 57"

definition isSign :: "rune \<Rightarrow> bool" where
  "isSign r \<longleftrightarrow> r = 43 \<or> r = 45"

definition digits_value :: "gostring \<Rightarrow> int" where
  "digits_value ds = foldl (\<lambda>a d. 10 * a + (int d - 48)) 0 ds"

definition ParseInt :: "gostring \<Rightarrow> gostring \<Rightarrow> scan_error + int" where
  "ParseInt sg ds =
     (let n = digits_value ds;
          v = (if sg = [45] then - n else n)
      in if - (2 ^ 63) \<le> v \<and> v < 2 ^ 63 then Inr v else Inl ErrRange)"

definition scanInt :: "gostring \<Rightarrow> scan_error + int" where
  "scanInt inp =
     (case SkipSpace inp of
        Inl e \<Rightarrow> Inl e
      | Inr s \<Rightarrow>
          (case s of
             [] \<Rightarrow> Inl EndOfInput
           | c # cs \<Rightarrow>
               let sg = (if isSign c then [c] else []);
                   s1 = (if isSign c then cs else s)
               in (case s1 of
                     [] \<Rightarrow> Inl EndOfInput
                   | d # _ \<Rightarrow>
                       if \<not> isDigit d then Inl ExpectedInteger
                       else ParseInt sg (takeWhile isDigit s1))))"

definition doScanf_d :: "gostring \<Rightarrow> scan_error + int" where
  "doScanf_d inp = (case SkipSpace inp of Inl e \<Rightarrow> Inl e | Inr s \<Rightarrow> scanInt s)"

text \<open>The result is the new value of \<^verbatim>\<open>v\<close>, the count of items scanned and the error.\<close>

definition Sscanf_d :: "gostring \<Rightarrow> int64 \<Rightarrow> int64 \<times> nat \<times> scan_error option" where
  "Sscanf_d str v =
     (case doScanf_d (take hugeWid str) of
        Inl e \<Rightarrow> (v, 0, Some e)
      | Inr i \<Rightarrow> (word_of_int i, 1, None))"

section \<open>Terraform framework values and diagnostics\<close>

text \<open>A \<^verbatim>\<open>types.String\<close> or \<^verbatim>\<open>types.Bool\<close> is null, unknown, or holds a value.\<close>

datatype 'a tfvalue = Null | Unknown | Known 'a

type_synonym tfString = "gostring tfvalue"
type_synonym tfBool = "bool tfvalue"

definition StringValue :: "gostring \<Rightarrow> tfString" where
  "StringValue s = Known s"

definition BoolValue :: "bool \<Rightarrow> tfBool" where
  "BoolValue b = Known b"

fun IsNull :: "'a tfvalue \<Rightarrow> bool" where
  "IsNull Null = True"
| "IsNull _ = False"

fun IsUnknown :: "'a tfvalue \<Rightarrow> bool" where
  "IsUnknown Unknown = True"
| "IsUnknown _ = False"

fun ValueString :: "tfString \<Rightarrow> gostring" where
  "ValueString (Known s) = s"
| "ValueString _ = []"

text \<open>
  A diagnostic has a severity, for an attribute diagnostic a path, a summary, and a detail:
  the parts the provider concatenates, kept apart (literal text, the \<^verbatim>\<open>String()\<close> rendering
  of a value, the text of an error).
\<close>

type_synonym error = gostring

datatype severity = SeverityError | SeverityWarning

datatype detail_part = Lit string | Rendered tfString | ErrorText error

record diagnostic =
  Severity :: severity
  AttributePath :: "string option"
  Summary :: string
  Detail :: "detail_part list"

type_synonym diagnostics = "diagnostic list"

definition HasError :: "diagnostics \<Rightarrow> bool" where
  "HasError ds = list_ex (\<lambda>d. Severity d = SeverityError) ds"

text \<open>\<^verbatim>\<open>Diagnostics.Append\<close> skips a diagnostic the collection already contains.\<close>

definition Append :: "diagnostics \<Rightarrow> diagnostics \<Rightarrow> diagnostics" where
  "Append ds new = foldl (\<lambda>acc d. if d \<in> set acc then acc else acc @ [d]) ds new"

definition AddError :: "diagnostics \<Rightarrow> string \<Rightarrow> detail_part list \<Rightarrow> diagnostics" where
  "AddError ds summary detail =
     Append ds [\<lparr>Severity = SeverityError, AttributePath = None, Summary = summary, Detail = detail\<rparr>]"

definition AddAttributeError :: "diagnostics \<Rightarrow> string \<Rightarrow> string \<Rightarrow> detail_part list \<Rightarrow> diagnostics" where
  "AddAttributeError ds path summary detail =
     Append ds [\<lparr>Severity = SeverityError, AttributePath = Some path, Summary = summary, Detail = detail\<rparr>]"

text \<open>
  What \<^verbatim>\<open>req.Plan.Get\<close>, \<^verbatim>\<open>req.State.Get\<close> or \<^verbatim>\<open>req.Config.Get\<close> yields: the diagnostics of the
  decoding and the decoded struct.
\<close>

datatype 'a tfdata = Data (Get_diags: diagnostics) (Get_value: 'a)

text \<open>A Go call returns, or panics (a nil pointer dereference).\<close>

datatype 'a outcome = Panic | Return 'a

section \<open>The remote API client (external collaborator)\<close>

text \<open>
  The generated client is not part of the repository; it is a parameter of the model.  A
  template as the API returns it (fields prefixed \<^verbatim>\<open>et_\<close>), the arguments the request
  builders collect, and the service: what \<^verbatim>\<open>Execute()\<close> returns for each call, given the API
  key carried by the authentication context.  A returned pointer may be nil (\<open>None\<close>).
\<close>

record EmailTemplate =
  et_ID :: int64
  et_Name :: gostring
  et_From :: gostring
  et_ReplyTo :: gostring
  et_Subject :: gostring
  et_Preheader :: gostring
  et_HTML :: gostring
  et_IsHTMLEditable :: bool
  et_LandingPageID :: gostring
  et_ImagePreviewURL :: gostring
  et_CreatedAt :: gostring
  et_UpdatedAt :: gostring

record http_Response =
  StatusCode :: int

record TemplateArgs =
  arg_Name :: gostring
  arg_From :: gostring
  arg_ReplyTo :: gostring
  arg_Subject :: gostring
  arg_Preheader :: gostring
  arg_Html :: gostring
  arg_LandingPage :: gostring

record TemplatesResponse =
  Results :: "EmailTemplate list option"

record EmailAPIService =
  CreateEmailTemplate ::
    "gostring \<Rightarrow> TemplateArgs \<Rightarrow> EmailTemplate option \<times> http_Response option \<times> error option"
  GetEmailTemplate ::
    "gostring \<Rightarrow> int64 \<Rightarrow> EmailTemplate option \<times> http_Response option \<times> error option"
  UpdateEmailTemplate ::
    "gostring \<Rightarrow> int64 \<Rightarrow> TemplateArgs \<Rightarrow>
       EmailTemplate option \<times> http_Response option \<times> error option"
  RemoveEmailTemplate ::
    "gostring \<Rightarrow> int64 \<Rightarrow> http_Response option \<times> error option"
  GetAllEmailTemplates ::
    "gostring \<Rightarrow> TemplatesResponse option \<times> http_Response option \<times> error option"

record APIClient =
  Host :: gostring
  EmailAPI :: EmailAPIService

text \<open>
  \<^verbatim>\<open>api.NewAPIClient(configuration)\<close> with \<^verbatim>\<open>configuration.Host = base_url\<close>; \<open>service\<close> is the
  behaviour of the server found at a host.
\<close>

definition NewAPIClient :: "(gostring \<Rightarrow> EmailAPIService) \<Rightarrow> gostring \<Rightarrow> APIClient" where
  "NewAPIClient service host = \<lparr>Host = host, EmailAPI = service host\<rparr>"

section \<open>The email template resource (\<^verbatim>\<open>email_template_resource.go\<close>)\<close>

record providerClient =
  client :: APIClient
  apiKey :: gostring

text \<open>The resource's own \<^verbatim>\<open>apiKey\<close> field is named \<open>resourceApiKey\<close> here.\<close>

record EmailTemplateResource =
  infobipClient :: "APIClient option"
  resourceApiKey :: gostring

record EmailTemplateResourceModel =
  ID :: tfString
  Name :: tfString
  From :: tfString
  ReplyTo :: tfString
  Subject :: tfString
  Preheader :: tfString
  Html :: tfString
  IsHtmlEditable :: tfBool
  LandingPage :: tfString
  ImagePreviewUrl :: tfString
  CreatedAt :: tfString
  UpdatedAt :: tfString

text \<open>
  Requests carry the plan and the prior state; a response carries the diagnostics and the
  state to be saved (\<open>None\<close>: no state, the resource is absent or removed).
\<close>

record CreateRequest =
  create_Plan :: "EmailTemplateResourceModel tfdata"

record ReadRequest =
  read_State :: "EmailTemplateResourceModel tfdata"

record UpdateRequest =
  update_Plan :: "EmailTemplateResourceModel tfdata"
  update_State :: "EmailTemplateResourceModel tfdata"

record DeleteRequest =
  delete_State :: "EmailTemplateResourceModel tfdata"

record Response =
  Diagnostics :: diagnostics
  State :: "EmailTemplateResourceModel option"

text \<open>\<^verbatim>\<open>resp.State.Set(ctx, model)\<close> of a model that fits the schema: no diagnostics.\<close>

definition State_Set :: "Response \<Rightarrow> EmailTemplateResourceModel \<Rightarrow> Response \<times> diagnostics" where
  "State_Set resp m = (resp\<lparr>State := Some m\<rparr>, [])"

definition RemoveResource :: "Response \<Rightarrow> Response" where
  "RemoveResource resp = resp\<lparr>State := None\<rparr>"

definition template_args :: "EmailTemplateResourceModel \<Rightarrow> TemplateArgs" where
  "template_args plan =
     \<lparr>arg_Name = ValueString (Name plan),
      arg_From = ValueString (From plan),
      arg_ReplyTo = ValueString (ReplyTo plan),
      arg_Subject = ValueString (Subject plan),
      arg_Preheader = ValueString (Preheader plan),
      arg_Html = ValueString (Html plan),
      arg_LandingPage = ValueString (LandingPage plan)\<rparr>"

text \<open>
  \<open>now k\<close> is \<^verbatim>\<open>time.Now().Format(time.RFC850)\<close> at the \<open>k\<close>-th reading of the clock within
  the call.
\<close>

definition Create ::
  "EmailTemplateResource \<Rightarrow> (nat \<Rightarrow> gostring) \<Rightarrow> CreateRequest \<Rightarrow> Response \<Rightarrow> Response outcome" where
  "Create r now req resp =
     (let plan = Get_value (create_Plan req);
          diags = Get_diags (create_Plan req);
          resp = resp\<lparr>Diagnostics := Append (Diagnostics resp) diags\<rparr>
      in if HasError (Diagnostics resp) then Return resp
         else (case infobipClient r of
                 None \<Rightarrow> Panic
               | Some c \<Rightarrow>
                   (case CreateEmailTemplate (EmailAPI c) (resourceApiKey r) (template_args plan) of
                      (emailTemplate, httpResponse, err) \<Rightarrow>
                        let resp = (case err of
                                      Some e \<Rightarrow>
                                        resp\<lparr>Diagnostics := AddError (Diagnostics resp)
                                          ''Error Creating Email Template''
                                          [Lit ''An error was encountered while creating the email template: '',
                                           ErrorText e]\<rparr>
                                    | None \<Rightarrow> resp)
                        in (case emailTemplate of
                              None \<Rightarrow> Panic
                            | Some t \<Rightarrow>
                                let plan = plan\<lparr>
                                      ID := StringValue (Sprintf_d (et_ID t)),
                                      Name := StringValue (et_Name t),
                                      From := StringValue (et_From t),
                                      ReplyTo := StringValue (et_ReplyTo t),
                                      Subject := StringValue (et_Subject t),
                                      Preheader := StringValue (et_Preheader t),
                                      Html := StringValue (normalizeHTML (et_HTML t)),
                                      IsHtmlEditable := BoolValue (et_IsHTMLEditable t),
                                      LandingPage := StringValue (et_LandingPageID t),
                                      ImagePreviewUrl := StringValue (et_ImagePreviewURL t),
                                      CreatedAt := StringValue (now 0),
                                      UpdatedAt := StringValue (now 1)\<rparr>;
                                    (resp, diags) = State_Set resp plan;
                                    resp = resp\<lparr>Diagnostics := Append (Diagnostics resp) diags\<rparr>
                                in Return resp))))"

definition Read ::
  "EmailTemplateResource \<Rightarrow> ReadRequest \<Rightarrow> Response \<Rightarrow> Response outcome" where
  "Read r req resp =
     (let state = Get_value (read_State req);
          diags = Get_diags (read_State req);
          resp = resp\<lparr>Diagnostics := Append (Diagnostics resp) diags\<rparr>
      in if HasError (Diagnostics resp) then Return resp
         else (case infobipClient r of
                 None \<Rightarrow> Panic
               | Some c \<Rightarrow>
                   let idInt = fst (Sscanf_d (ValueString (ID state)) 0)
                   in (case GetEmailTemplate (EmailAPI c) (resourceApiKey r) idInt of
                         (emailTemplate, httpResponse, err) \<Rightarrow>
                           (case err of
                              Some e \<Rightarrow>
                                Return (resp\<lparr>Diagnostics := AddError (Diagnostics resp)
                                  ''Error Reading HashiCups Order''
                                  [Lit ''Could not read HashiCups order ID '', Rendered (ID state),
                                   Lit '': '', ErrorText e]\<rparr>)
                            | None \<Rightarrow>
                                (case emailTemplate of
                                   None \<Rightarrow> Panic
                                 | Some t \<Rightarrow>
                                     let state = state\<lparr>
                                           ID := StringValue (Sprintf_d (et_ID t)),
                                           Name := StringValue (et_Name t),
                                           From := StringValue (et_From t),
                                           ReplyTo := StringValue (et_ReplyTo t),
                                           Subject := StringValue (et_Subject t),
                                           Preheader := StringValue (et_Preheader t),
                                           Html := StringValue (normalizeHTML (et_HTML t)),
                                           IsHtmlEditable := BoolValue (et_IsHTMLEditable t),
                                           LandingPage := StringValue (et_LandingPageID t),
                                           ImagePreviewUrl := StringValue (et_ImagePreviewURL t),
                                           CreatedAt := StringValue (et_CreatedAt t),
                                           UpdatedAt := StringValue (et_UpdatedAt t)\<rparr>;
                                         (resp, diags) = State_Set resp state;
                                         resp = resp\<lparr>Diagnostics := Append (Diagnostics resp) diags\<rparr>
                                     in Return resp)))))"

definition Update ::
  "EmailTemplateResource \<Rightarrow> (nat \<Rightarrow> gostring) \<Rightarrow> UpdateRequest \<Rightarrow> Response \<Rightarrow> Response outcome" where
  "Update r now req resp =
     (let plan = Get_value (update_Plan req);
          diags = Get_diags (update_Plan req);
          resp = resp\<lparr>Diagnostics := Append (Diagnostics resp) diags\<rparr>
      in if HasError (Diagnostics resp) then Return resp
         else
           let state = Get_value (update_State req);
               resp = resp\<lparr>Diagnostics := Append (Diagnostics resp) (Get_diags (update_State req))\<rparr>
           in if HasError (Diagnostics resp) then Return resp
              else (case infobipClient r of
                      None \<Rightarrow> Panic
                    | Some c \<Rightarrow>
                        let idInt = fst (Sscanf_d (ValueString (ID state)) 0)
                        in (case UpdateEmailTemplate (EmailAPI c) (resourceApiKey r) idInt
                                   (template_args plan) of
                              (emailTemplate, httpResponse, err) \<Rightarrow>
                                (case err of
                                   Some e \<Rightarrow>
                                     Return (resp\<lparr>Diagnostics := AddError (Diagnostics resp)
                                       ''Error Updating Email Template''
                                       [Lit ''An error was encountered while updating the email template: '',
                                        ErrorText e]\<rparr>)
                                 | None \<Rightarrow>
                                     (case emailTemplate of
                                        None \<Rightarrow> Panic
                                      | Some t \<Rightarrow>
                                          let plan = plan\<lparr>
                                                ID := StringValue (Sprintf_d (et_ID t)),
                                                Name := StringValue (et_Name t),
                                                From := StringValue (et_From t),
                                                ReplyTo := StringValue (et_ReplyTo t),
                                                Subject := StringValue (et_Subject t),
                                                Preheader := StringValue (et_Preheader t),
                                                Html := StringValue (normalizeHTML (et_HTML t)),
                                                IsHtmlEditable := BoolValue (et_IsHTMLEditable t),
                                                LandingPage := StringValue (et_LandingPageID t),
                                                ImagePreviewUrl := StringValue (et_ImagePreviewURL t)\<rparr>;
                                              preserved = (ValueString (CreatedAt state) \<noteq> []);
                                              plan = (if preserved
                                                      then plan\<lparr>CreatedAt := CreatedAt state\<rparr>
                                                      else plan\<lparr>CreatedAt := StringValue (now 0)\<rparr>);
                                              plan = plan\<lparr>UpdatedAt :=
                                                       StringValue (now (if preserved then 0 else 1))\<rparr>;
                                              (resp, diags) = State_Set resp plan;
                                              resp = resp\<lparr>Diagnostics := Append (Diagnostics resp) diags\<rparr>
                                          in Return resp)))))"

definition Delete ::
  "EmailTemplateResource \<Rightarrow> DeleteRequest \<Rightarrow> Response \<Rightarrow> Response outcome" where
  "Delete r req resp =
     (let data = Get_value (delete_State req);
          resp = resp\<lparr>Diagnostics := Append (Diagnostics resp) (Get_diags (delete_State req))\<rparr>
      in if HasError (Diagnostics resp) then Return resp
         else (case infobipClient r of
                 None \<Rightarrow> Panic
               | Some c \<Rightarrow>
                   let idInt = fst (Sscanf_d (ValueString (ID data)) 0)
                   in (case RemoveEmailTemplate (EmailAPI c) (resourceApiKey r) idInt of
                         (httpResponse, err) \<Rightarrow>
                           (case err of
                              Some e \<Rightarrow>
                                if (case httpResponse of
                                      None \<Rightarrow> False
                                    | Some h \<Rightarrow> StatusCode h = 404)
                                then Return (RemoveResource resp)
                                else Return (resp\<lparr>Diagnostics := AddError (Diagnostics resp)
                                       ''Error Deleting Email Template''
                                       [Lit ''An error was encountered while deleting the email template: '',
                                        ErrorText e]\<rparr>)
                            | None \<Rightarrow> Return (RemoveResource resp)))))"

section \<open>The diff-suppression plan modifier\<close>

record StringRequest =
  StateValue :: tfString
  PlanValue :: tfString

record StringResponse =
  resp_PlanValue :: tfString

definition PlanModifyString :: "StringRequest \<Rightarrow> StringResponse \<Rightarrow> StringResponse" where
  "PlanModifyString req resp =
     (if IsNull (StateValue req) \<or> IsNull (PlanValue req) then resp
      else
        let oldVal = normalize_inline (ValueString (StateValue req));
            newVal = normalize_inline (ValueString (PlanValue req))
        in if oldVal = newVal then resp\<lparr>resp_PlanValue := StateValue req\<rparr> else resp)"

section \<open>Provider configuration (\<^verbatim>\<open>provider.go\<close>)\<close>

text \<open>
  The rendering of the response in the detail of the ``Invalid response'' diagnostic is left
  out; logging has no effect on the result and is not modelled.
\<close>

record pocInfobipEmailsProviderModel =
  BaseUrl :: tfString
  ApiKey :: tfString

record ConfigureRequest =
  Config :: "pocInfobipEmailsProviderModel tfdata"

record ConfigureResponse =
  cfg_Diagnostics :: diagnostics
  DataSourceData :: "providerClient option"
  ResourceData :: "providerClient option"

text \<open>\<^verbatim>\<open>os.Getenv\<close>: the value of the variable, or the empty string if it is not set.\<close>

definition Getenv :: "(gostring \<rightharpoonup> gostring) \<Rightarrow> gostring \<Rightarrow> gostring" where
  "Getenv env key = (case env key of None \<Rightarrow> [] | Some v \<Rightarrow> v)"

definition unknown_base_url :: diagnostic where
  "unknown_base_url =
     \<lparr>Severity = SeverityError, AttributePath = Some ''base_url'',
      Summary = ''Unknown Infobip API base url'',
      Detail = [Lit (''The provider cannot create the Infobip API client as there is an unknown configuration value for the Infobip API base url. '' @
        ''Either target apply the source of the value first, set the value statically in the configuration, or use the POCINFOBIPEMAILS_BASE_URL environment variable.'')]\<rparr>"

definition unknown_api_key :: diagnostic where
  "unknown_api_key =
     \<lparr>Severity = SeverityError, AttributePath = Some ''api_key'',
      Summary = ''Unknown Infobip API key'',
      Detail = [Lit (''The provider cannot create the Infobip API client as there is an unknown configuration value for the Infobip API key. '' @
        ''Either target apply the source of the value first, set the value statically in the configuration, or use the POCINFOBIPEMAILS_API_KEY environment variable.'')]\<rparr>"

definition missing_base_url :: diagnostic where
  "missing_base_url =
     \<lparr>Severity = SeverityError, AttributePath = Some ''base_url'',
      Summary = ''Missing Infobip API base url'',
      Detail = [Lit (''The provider cannot create the Infobip API client as there is a missing or empty value for the Infobip API base url. '' @
        ''Set the host value in the configuration or use the POCINFOBIPEMAILS_BASE_URL environment variable. '' @
        ''If either is already set, ensure the value is not empty.'')]\<rparr>"

definition missing_api_key :: diagnostic where
  "missing_api_key =
     \<lparr>Severity = SeverityError, AttributePath = Some ''api_key'',
      Summary = ''Missing Infobip API key'',
      Detail = [Lit (''The provider cannot create the Infobip API client as there is a missing or empty value for the Infobip API key. '' @
        ''Set the api_key value in the configuration or use the POCINFOBIPEMAILS_API_KEY environment variable. '' @
        ''If either is already set, ensure the value is not empty.'')]\<rparr>"

definition Configure ::
  "(gostring \<Rightarrow> EmailAPIService) \<Rightarrow> (gostring \<rightharpoonup> gostring) \<Rightarrow> ConfigureRequest \<Rightarrow>
     ConfigureResponse \<Rightarrow> ConfigureResponse" where
  "Configure service env req resp =
     (let config = Get_value (Config req);
          resp = resp\<lparr>cfg_Diagnostics := Append (cfg_Diagnostics resp) (Get_diags (Config req))\<rparr>
      in if HasError (cfg_Diagnostics resp) then resp
         else
           let resp = (if IsUnknown (BaseUrl config)
                       then resp\<lparr>cfg_Diagnostics := Append (cfg_Diagnostics resp) [unknown_base_url]\<rparr>
                       else resp);
               resp = (if IsUnknown (ApiKey config)
                       then resp\<lparr>cfg_Diagnostics := Append (cfg_Diagnostics resp) [unknown_api_key]\<rparr>
                       else resp)
           in if HasError (cfg_Diagnostics resp) then resp
              else
                let base_url = Getenv env (S ''POCINFOBIPEMAILS_BASE_URL'');
                    api_key = Getenv env (S ''POCINFOBIPEMAILS_API_KEY'');
                    base_url = (if \<not> IsNull (BaseUrl config) then ValueString (BaseUrl config)
                                else base_url);
                    api_key = (if \<not> IsNull (ApiKey config) then ValueString (ApiKey config)
                               else api_key);
                    resp = (if base_url = []
                            then resp\<lparr>cfg_Diagnostics := Append (cfg_Diagnostics resp) [missing_base_url]\<rparr>
                            else resp);
                    resp = (if api_key = []
                            then resp\<lparr>cfg_Diagnostics := Append (cfg_Diagnostics resp) [missing_api_key]\<rparr>
                            else resp)
                in if HasError (cfg_Diagnostics resp) then resp
                   else
                     let infobipClient = NewAPIClient service base_url
                     in (case GetAllEmailTemplates (EmailAPI infobipClient) api_key of
                           (apiResponse, httpResponse, err) \<Rightarrow>
                             (case err of
                                Some e \<Rightarrow>
                                  resp\<lparr>cfg_Diagnostics := AddError (cfg_Diagnostics resp)
                                    ''Failed to fetch all email templates'' [ErrorText e]\<rparr>
                              | None \<Rightarrow>
                                  let resp = (if (case apiResponse of
                                                    None \<Rightarrow> True
                                                  | Some a \<Rightarrow> Results a = None)
                                              then resp\<lparr>cfg_Diagnostics := AddError (cfg_Diagnostics resp)
                                                     ''Invalid response''
                                                     [Lit ''Expected messages, but got: '']\<rparr>
                                              else resp);
                                      provData = \<lparr>client = infobipClient, apiKey = api_key\<rparr>
                                  in resp\<lparr>DataSourceData := Some provData,
                                          ResourceData := Some provData\<rparr>)))"

section \<open>Notions of the specification, concrete inputs, auxiliary notions\<close>

subsection \<open>The normalizer as the specification words it\<close>

text \<open>
  The four steps of the specification, each written from its sentence and with one notion
  of white space throughout (\<^verbatim>\<open>unicode.IsSpace\<close>): CRLF to LF; trim both ends; every
  run of white space becomes one space; white space directly between a \<^verbatim>\<open>>\<close> and a
  following \<^verbatim>\<open><\<close> is deleted.
\<close>

fun crlf_to_lf :: "gostring \<Rightarrow> gostring" where
  "crlf_to_lf (a # b # cs) =
     (if a = CR \<and> b = LF then LF # crlf_to_lf cs else a # crlf_to_lf (b # cs))"
| "crlf_to_lf cs = cs"

definition trim_spec :: "gostring \<Rightarrow> gostring" where
  "trim_spec s = rev (dropWhile IsSpace (rev (dropWhile IsSpace s)))"

fun collapse_ws :: "gostring \<Rightarrow> gostring" where
  "collapse_ws [] = []"
| "collapse_ws [c] = (if IsSpace c then [SP] else [c])"
| "collapse_ws (c # d # cs) =
     (if IsSpace c
      then (if IsSpace d then collapse_ws (d # cs) else SP # collapse_ws (d # cs))
      else c # collapse_ws (d # cs))"

function strip_intertag :: "gostring \<Rightarrow> gostring" where
  "strip_intertag [] = []"
| "strip_intertag (c # cs) =
     (if c = GT \<and> (case dropWhile IsSpace cs of [] \<Rightarrow> False | d # ds \<Rightarrow> d = LT)
      then GT # strip_intertag (dropWhile IsSpace cs)
      else c # strip_intertag cs)"
  by pat_completeness auto
termination
proof (relation "measure length")
  fix c :: rune and cs
  have "length (dropWhile IsSpace cs) \<le> length cs" by (rule length_dropWhile_le)
  then show "(dropWhile IsSpace cs, c # cs) \<in> measure length" by simp
qed auto

definition normalize_spec :: "gostring \<Rightarrow> gostring" where
  "normalize_spec raw = strip_intertag (collapse_ws (trim_spec (crlf_to_lf raw)))"

text \<open>
  Strings that differ only in white-space runs, in inter-tag white space, or in CRLF
  against LF line endings: the relation generated by replacing one non-empty run of
  white space by another, replacing the (possibly empty) white space between a \<^verbatim>\<open>>\<close>
  and the following \<^verbatim>\<open><\<close> by other white space, and replacing a CRLF by an LF, any
  number of times and in either direction.
\<close>

inductive ws_variant :: "gostring \<Rightarrow> gostring \<Rightarrow> bool" where
  run: "w1 \<noteq> [] \<Longrightarrow> w2 \<noteq> [] \<Longrightarrow> \<forall>c\<in>set w1. IsSpace c \<Longrightarrow> \<forall>c\<in>set w2. IsSpace c \<Longrightarrow>
        ws_variant (xs @ w1 @ ys) (xs @ w2 @ ys)"
| intertag: "\<forall>c\<in>set w1. IsSpace c \<Longrightarrow> \<forall>c\<in>set w2. IsSpace c \<Longrightarrow>
        ws_variant (xs @ GT # w1 @ LT # ys) (xs @ GT # w2 @ LT # ys)"
| crlf: "ws_variant (xs @ CR # LF # ys) (xs @ LF # ys)"
| same: "ws_variant a a"
| sym: "ws_variant a b \<Longrightarrow> ws_variant b a"
| trans: "ws_variant a b \<Longrightarrow> ws_variant b c \<Longrightarrow> ws_variant a c"

subsection \<open>Notions the claims about the resource use\<close>

text \<open>
  A string that begins with a decimal integer: a digit, or a sign and then a digit.
\<close>

definition begins_with_decimal_integer :: "gostring \<Rightarrow> bool" where
  "begins_with_decimal_integer s =
     (case s of
        [] \<Rightarrow> False
      | c # cs \<Rightarrow> isDigit c \<or> (isSign c \<and> (case cs of [] \<Rightarrow> False | d # _ \<Rightarrow> isDigit d)))"

text \<open>The resource with a client whose by-id calls all address the template 0.\<close>

definition addressing_zero :: "EmailTemplateResource \<Rightarrow> EmailTemplateResource" where
  "addressing_zero r =
     r\<lparr>infobipClient :=
         map_option
           (\<lambda>c. c\<lparr>EmailAPI := (EmailAPI c)\<lparr>
                   GetEmailTemplate := \<lambda>k i. GetEmailTemplate (EmailAPI c) k 0,
                   UpdateEmailTemplate := \<lambda>k i a. UpdateEmailTemplate (EmailAPI c) k 0 a,
                   RemoveEmailTemplate := \<lambda>k i. RemoveEmailTemplate (EmailAPI c) k 0\<rparr>\<rparr>)
           (infobipClient r)\<rparr>"

text \<open>
  The resolved value of a provider setting as the specification words it: the explicit
  configuration value when it is set, the environment variable's value when it is null.
\<close>

definition resolved_spec :: "(gostring \<rightharpoonup> gostring) \<Rightarrow> gostring \<Rightarrow> tfString \<Rightarrow> gostring" where
  "resolved_spec env var v =
     (case v of Known s \<Rightarrow> s | Null \<Rightarrow> Getenv env var | Unknown \<Rightarrow> [])"

subsection \<open>Concrete inputs\<close>

text \<open>
  A service that answers every call with the same template pointer, HTTP response and
  error, and one that identifies the template asked for.
\<close>

definition constant_service ::
  "EmailTemplate option \<Rightarrow> http_Response option \<Rightarrow> error option \<Rightarrow> EmailAPIService" where
  "constant_service t h e =
     \<lparr>CreateEmailTemplate = \<lambda>k a. (t, h, e),
      GetEmailTemplate = \<lambda>k i. (t, h, e),
      UpdateEmailTemplate = \<lambda>k i a. (t, h, e),
      RemoveEmailTemplate = \<lambda>k i. (h, e),
      GetAllEmailTemplates = \<lambda>k. (Some \<lparr>Results = Some []\<rparr>, h, e)\<rparr>"

definition zero_template :: EmailTemplate where
  "zero_template =
     \<lparr>et_ID = 0, et_Name = [], et_From = [], et_ReplyTo = [], et_Subject = [],
      et_Preheader = [], et_HTML = [], et_IsHTMLEditable = False, et_LandingPageID = [],
      et_ImagePreviewURL = [], et_CreatedAt = [], et_UpdatedAt = []\<rparr>"

definition echo_service :: EmailAPIService where
  "echo_service =
     \<lparr>CreateEmailTemplate = \<lambda>k a. (Some zero_template, None, None),
      GetEmailTemplate = \<lambda>k i. (Some (zero_template\<lparr>et_ID := i\<rparr>), None, None),
      UpdateEmailTemplate = \<lambda>k i a. (Some (zero_template\<lparr>et_ID := i\<rparr>), None, None),
      RemoveEmailTemplate = \<lambda>k i. (None, None),
      GetAllEmailTemplates = \<lambda>k. (Some \<lparr>Results = Some []\<rparr>, None, None)\<rparr>"

definition resource_of :: "EmailAPIService \<Rightarrow> EmailTemplateResource" where
  "resource_of svc =
     \<lparr>infobipClient = Some \<lparr>Host = S ''https://api.example.com'', EmailAPI = svc\<rparr>,
      resourceApiKey = S ''secret''\<rparr>"

definition sample_model :: EmailTemplateResourceModel where
  "sample_model =
     \<lparr>ID = Known (S ''42''), Name = Known (S ''Welcome''), From = Known (S ''noreply@example.com''),
      ReplyTo = Null, Subject = Known (S ''Hello''), Preheader = Null,
      Html = Known (S ''<html></html>''), IsHtmlEditable = Known True, LandingPage = Null,
      ImagePreviewUrl = Known [], CreatedAt = Known (S ''2020-01-01''),
      UpdatedAt = Known (S ''2020-01-02'')\<rparr>"

definition empty_response :: Response where
  "empty_response = \<lparr>Diagnostics = [], State = None\<rparr>"

subsection \<open>Auxiliary notions for the proofs\<close>

text \<open>A field: non-empty and free of white space.\<close>

definition word :: "gostring \<Rightarrow> bool" where
  "word w \<longleftrightarrow> w \<noteq> [] \<and> (\<forall>c\<in>set w. \<not> IsSpace c)"

text \<open>
  Joining fields with one space, except where the left field ends in \<^verbatim>\<open>>\<close> and the right
  one starts with \<^verbatim>\<open><\<close>.
\<close>

fun gjoin :: "gostring list \<Rightarrow> gostring" where
  "gjoin [] = []"
| "gjoin [w] = w"
| "gjoin (w1 # w2 # ws) =
     w1 @ (if last w1 = GT \<and> hd w2 = LT then [] else [SP]) @ gjoin (w2 # ws)"

section \<open>Properties of the library functions\<close>

lemma FieldsFunc_loop_Nil:
  "FieldsFunc_loop f st [] = (case st of Some w \<Rightarrow> [w] | None \<Rightarrow> [])"
  by (cases st) simp_all

lemma FieldsFunc_loop_sep:
  "f c \<Longrightarrow> FieldsFunc_loop f st (xs @ c # ys) = FieldsFunc_loop f st xs @ FieldsFunc_loop f None ys"
  by (induction xs arbitrary: st) (auto simp: FieldsFunc_loop_Nil split: option.splits)

lemma FieldsFunc_loop_leading:
  "\<forall>c\<in>set w. f c \<Longrightarrow> FieldsFunc_loop f None (w @ ys) = FieldsFunc_loop f None ys"
  by (induction w) auto

lemma FieldsFunc_loop_trailing:
  "\<forall>c\<in>set w. f c \<Longrightarrow> FieldsFunc_loop f st (xs @ w) = FieldsFunc_loop f st xs"
proof (cases w)
  case Nil
  then show ?thesis by simp
next
  case (Cons c w')
  assume a: "\<forall>c\<in>set w. f c"
  with Cons have "f c" and w': "\<forall>c\<in>set w'. f c" by auto
  have "FieldsFunc_loop f st (xs @ c # w') = FieldsFunc_loop f st xs @ FieldsFunc_loop f None w'"
    using \<open>f c\<close> by (rule FieldsFunc_loop_sep)
  also have "FieldsFunc_loop f None w' = []"
    using FieldsFunc_loop_leading [OF w', of "[]"] by simp
  finally show ?thesis using Cons by simp
qed

lemma FieldsFunc_loop_run:
  "\<forall>c\<in>set v. \<not> f c \<Longrightarrow> FieldsFunc_loop f (Some u) (v @ ys) = FieldsFunc_loop f (Some (u @ v)) ys"
  by (induction v arbitrary: u) auto

lemma FieldsFunc_loop_Some_ne: "FieldsFunc_loop f (Some v) ys \<noteq> []"
  by (induction ys arbitrary: v) auto

lemma FieldsFunc_loop_Some_prepend:
  "FieldsFunc_loop f (Some (u @ v)) ys =
     (u @ hd (FieldsFunc_loop f (Some v) ys)) # tl (FieldsFunc_loop f (Some v) ys)"
  by (induction ys arbitrary: v) auto

lemma FieldsFunc_loop_words:
  "(case st of Some u \<Rightarrow> u \<noteq> [] \<and> (\<forall>c\<in>set u. \<not> f c) | None \<Rightarrow> True) \<Longrightarrow>
   w \<in> set (FieldsFunc_loop f st xs) \<Longrightarrow> w \<noteq> [] \<and> (\<forall>c\<in>set w. \<not> f c)"
proof (induction xs arbitrary: st)
  case Nil
  then show ?case by (cases st) auto
next
  case (Cons r rs)
  show ?case
  proof (cases "f r")
    case True
    with Cons.prems have "w \<in> set (case st of Some u \<Rightarrow> [u] | None \<Rightarrow> []) \<or> w \<in> set (FieldsFunc_loop f None rs)"
      by (auto split: option.splits)
    then show ?thesis
    proof
      assume "w \<in> set (case st of Some u \<Rightarrow> [u] | None \<Rightarrow> [])"
      with Cons.prems(1) show ?thesis by (auto split: option.splits)
    next
      assume "w \<in> set (FieldsFunc_loop f None rs)"
      then show ?thesis using Cons.IH [of None] by simp
    qed
  next
    case False
    let ?st = "Some ((case st of Some u \<Rightarrow> u | None \<Rightarrow> []) @ [r])"
    from False Cons.prems(2) have "w \<in> set (FieldsFunc_loop f ?st rs)"
      by (auto split: option.splits)
    moreover have "case ?st of Some u \<Rightarrow> u \<noteq> [] \<and> (\<forall>c\<in>set u. \<not> f c) | None \<Rightarrow> True"
      using False Cons.prems(1) by (auto split: option.splits)
    ultimately show ?thesis using Cons.IH [of ?st] by blast
  qed
qed

lemma Fields_words: "w \<in> set (Fields s) \<Longrightarrow> word w"
  unfolding Fields_def word_def using FieldsFunc_loop_words [where st=None and f=IsSpace and w=w and xs=s] by simp

lemma Fields_sep:
  assumes "w \<noteq> []" "\<forall>c\<in>set w. IsSpace c"
  shows "Fields (xs @ w @ ys) = Fields xs @ Fields ys"
proof -
  from assms obtain c w' where w: "w = c # w'" and c: "IsSpace c" and w': "\<forall>c\<in>set w'. IsSpace c"
    by (cases w) auto
  show ?thesis
    unfolding Fields_def w
    using FieldsFunc_loop_sep [of IsSpace c None xs "w' @ ys"] c
      FieldsFunc_loop_leading [of w' IsSpace ys] w' by simp
qed

lemma Fields_word: "word w \<Longrightarrow> Fields w = [w]"
proof -
  assume "word w"
  then obtain c v where w: "w = c # v" and c: "\<not> IsSpace c" and v: "\<forall>c\<in>set v. \<not> IsSpace c"
    by (cases w) (auto simp: word_def)
  have "Fields w = FieldsFunc_loop IsSpace (Some [c]) (v @ [])"
    using c by (simp add: Fields_def w)
  also have "\<dots> = FieldsFunc_loop IsSpace (Some ([c] @ v)) []"
    using v by (rule FieldsFunc_loop_run)
  finally show ?thesis by (simp add: w)
qed

lemma reSpace_IsSpace: "reSpace c \<Longrightarrow> IsSpace c"
  by (auto simp: reSpace_def IsSpace_def)

lemma SP_spaces [simp]: "reSpace SP" "IsSpace SP"
  by (simp_all add: reSpace_def IsSpace_def SP_def)

lemma tag_runes [simp]:
  "GT \<noteq> LT" "LT \<noteq> GT" "SP \<noteq> GT" "SP \<noteq> LT" "\<not> IsSpace GT" "\<not> IsSpace LT" "\<not> reSpace GT" "\<not> reSpace LT"
  "IsSpace CR" "IsSpace LF" "CR \<noteq> LF"
  by (simp_all add: reSpace_def IsSpace_def SP_def GT_def LT_def CR_def LF_def)

lemma tags_plain:
  "\<not> reSpace d \<Longrightarrow> ReplaceAllString_tags (c # d # rest) = c # ReplaceAllString_tags (d # rest)"
  by simp

lemma tags_word: "\<forall>c\<in>set u. \<not> reSpace c \<Longrightarrow> ReplaceAllString_tags u = u"
proof (induction u)
  case Nil
  show ?case by simp
next
  case (Cons c u)
  show ?case
  proof (cases u)
    case Nil
    then show ?thesis by simp
  next
    case (Cons d u')
    with Cons.prems have "\<not> reSpace d" by simp
    then have "ReplaceAllString_tags (c # d # u') = c # ReplaceAllString_tags (d # u')"
      by (rule tags_plain)
    with Cons.IH Cons.prems Cons show ?thesis by simp
  qed
qed

lemma tags_word_prefix:
  "\<forall>c\<in>set u. \<not> reSpace c \<Longrightarrow> \<not> reSpace d \<Longrightarrow>
   ReplaceAllString_tags (u @ d # rest) = u @ ReplaceAllString_tags (d # rest)"
proof (induction u)
  case Nil
  show ?case by simp
next
  case (Cons c u)
  have "\<exists>e t. u @ d # rest = e # t \<and> \<not> reSpace e"
    using Cons.prems by (cases u) auto
  then obtain e t where et: "u @ d # rest = e # t" and e: "\<not> reSpace e" by blast
  have "ReplaceAllString_tags (c # e # t) = c # ReplaceAllString_tags (e # t)"
    using e by (rule tags_plain)
  with et Cons show ?case by simp
qed

lemma tags_boundary:
  "\<not> reSpace h \<Longrightarrow>
   ReplaceAllString_tags (l # SP # h # t) =
     l # (if l = GT \<and> h = LT then [] else [SP]) @ ReplaceAllString_tags (h # t)"
  by simp

lemma Join_words_hd:
  "word w \<Longrightarrow> \<exists>t. Join (w # ws) [SP] = hd w # t"
  by (cases w; cases ws) (auto simp: word_def)

lemma tags_Join_words:
  "\<forall>w\<in>set ws. word w \<Longrightarrow> ReplaceAllString_tags (Join ws [SP]) = gjoin ws"
proof (induction ws rule: gjoin.induct)
  case 1
  show ?case by simp
next
  case (2 w)
  then have "\<forall>c\<in>set w. \<not> reSpace c" by (auto simp: word_def dest: reSpace_IsSpace)
  then show ?case by (simp add: tags_word)
next
  case (3 w1 w2 ws)
  from 3(2) have w1: "word w1" and w2: "word w2" by simp_all
  obtain t where t: "Join (w2 # ws) [SP] = hd w2 # t"
    using Join_words_hd [OF w2] by blast
  have h: "\<not> reSpace (hd w2)" using w2 by (cases w2) (auto simp: word_def dest: reSpace_IsSpace)
  from w1 have w1s: "w1 = butlast w1 @ [last w1]" by (simp add: word_def)
  have b: "\<forall>c\<in>set (butlast w1). \<not> reSpace c" and l: "\<not> reSpace (last w1)"
    using w1 by (auto simp: word_def dest: reSpace_IsSpace in_set_butlastD)
  have "ReplaceAllString_tags (Join (w1 # w2 # ws) [SP]) =
        ReplaceAllString_tags (butlast w1 @ last w1 # SP # hd w2 # t)"
    using t w1s by (metis Join.simps(3) append.assoc append_Cons append_Nil)
  also have "\<dots> = butlast w1 @ ReplaceAllString_tags (last w1 # SP # hd w2 # t)"
    using b l by (rule tags_word_prefix)
  also have "\<dots> = butlast w1 @ last w1 # (if last w1 = GT \<and> hd w2 = LT then [] else [SP]) @
                    ReplaceAllString_tags (hd w2 # t)"
    by (simp only: tags_boundary [OF h])
  also have "ReplaceAllString_tags (hd w2 # t) = gjoin (w2 # ws)"
    using 3 t by simp
  finally show ?case using w1s by (metis append.assoc append_Cons append_Nil gjoin.simps(3))
qed

lemma Fields_TrimSpace: "Fields (TrimSpace s) = Fields s"
proof -
  let ?a = "takeWhile IsSpace s" and ?m = "dropWhile IsSpace s"
  let ?b = "takeWhile IsSpace (rev ?m)"
  have m: "?m = TrimSpace s @ rev ?b"
  proof -
    have "rev (?b @ dropWhile IsSpace (rev ?m)) = ?m"
      by (simp only: takeWhile_dropWhile_id rev_rev_ident)
    then show ?thesis by (simp only: TrimSpace_def rev_append)
  qed
  have "Fields s = FieldsFunc_loop IsSpace None (?a @ ?m)" by (simp add: Fields_def)
  also have "\<dots> = FieldsFunc_loop IsSpace None ?m"
    by (rule FieldsFunc_loop_leading) (auto dest: set_takeWhileD)
  also have "\<dots> = FieldsFunc_loop IsSpace None (TrimSpace s @ rev ?b)"
    using m by simp
  also have "\<dots> = FieldsFunc_loop IsSpace None (TrimSpace s)"
    by (rule FieldsFunc_loop_trailing) (auto dest: set_takeWhileD)
  finally show ?thesis by (simp add: Fields_def)
qed

lemma ReplaceAll_crlf_simps:
  "ReplaceAll [] [CR, LF] [LF] = []"
  "ReplaceAll (CR # LF # cs) [CR, LF] [LF] = LF # ReplaceAll cs [CR, LF] [LF]"
  "\<not> (c = CR \<and> (\<exists>t. cs = LF # t)) \<Longrightarrow> ReplaceAll (c # cs) [CR, LF] [LF] = c # ReplaceAll cs [CR, LF] [LF]"
proof -
  show "ReplaceAll [] [CR, LF] [LF] = []" by (simp add: ReplaceAll_def ReplaceAll_scan.simps)
  show "ReplaceAll (CR # LF # cs) [CR, LF] [LF] = LF # ReplaceAll cs [CR, LF] [LF]"
    unfolding ReplaceAll_def by (subst ReplaceAll_scan.simps) simp
  assume "\<not> (c = CR \<and> (\<exists>t. cs = LF # t))"
  then show "ReplaceAll (c # cs) [CR, LF] [LF] = c # ReplaceAll cs [CR, LF] [LF]"
    unfolding ReplaceAll_def by (subst ReplaceAll_scan.simps) (cases cs; auto)
qed

lemma FieldsFunc_loop_ReplaceAll:
  "FieldsFunc_loop IsSpace st (ReplaceAll s [CR, LF] [LF]) = FieldsFunc_loop IsSpace st s"
proof (induction s arbitrary: st rule: length_induct)
  case (1 s)
  show ?case
  proof (cases s)
    case Nil
    then show ?thesis by (simp add: ReplaceAll_crlf_simps)
  next
    case (Cons c cs)
    show ?thesis
    proof (cases "c = CR \<and> (\<exists>t. cs = LF # t)")
      case True
      then obtain t where s: "s = CR # LF # t" using Cons by auto
      have "FieldsFunc_loop IsSpace None (ReplaceAll t [CR, LF] [LF]) = FieldsFunc_loop IsSpace None t"
        using 1 s by simp
      then show ?thesis by (cases st) (simp_all add: s ReplaceAll_crlf_simps)
    next
      case False
      have ih: "\<And>st'. FieldsFunc_loop IsSpace st' (ReplaceAll cs [CR, LF] [LF]) = FieldsFunc_loop IsSpace st' cs"
        using 1 Cons by simp
      show ?thesis using False by (simp add: Cons ReplaceAll_crlf_simps(3) ih split: option.split)
    qed
  qed
qed

lemma normalizeHTML_gjoin: "normalizeHTML s = gjoin (Fields s)"
proof -
  have "Fields (TrimSpace (ReplaceAll s [CR, LF] [LF])) = Fields s"
    by (simp add: Fields_TrimSpace) (simp add: Fields_def FieldsFunc_loop_ReplaceAll)
  moreover have "\<forall>w\<in>set (Fields s). word w" by (simp add: Fields_words)
  ultimately show ?thesis by (simp add: normalizeHTML_def tags_Join_words)
qed

lemma gjoin_glue_hd: "v \<noteq> [] \<Longrightarrow> gjoin ((u @ v) # rest) = u @ gjoin (v # rest)"
  by (cases rest) simp_all

lemma Fields_nonspace_hd:
  assumes "g \<noteq> []" "\<not> IsSpace (hd g)"
  shows "Fields g \<noteq> [] \<and> hd (Fields g) \<noteq> [] \<and> hd (hd (Fields g)) = hd g"
proof -
  from assms obtain c t where g: "g = c # t" and c: "\<not> IsSpace c" by (cases g) auto
  have "Fields g = FieldsFunc_loop IsSpace (Some ([c] @ [])) t"
    using c by (simp add: Fields_def g)
  also have "\<dots> = ([c] @ hd (FieldsFunc_loop IsSpace (Some []) t)) # tl (FieldsFunc_loop IsSpace (Some []) t)"
    by (rule FieldsFunc_loop_Some_prepend)
  finally show ?thesis by (simp add: g)
qed

lemma Fields_word_append:
  assumes "word w" "g \<noteq> []" "\<not> IsSpace (hd g)"
  shows "Fields (w @ g) = (w @ hd (Fields g)) # tl (Fields g)"
proof -
  from assms obtain c t where g: "g = c # t" and c: "\<not> IsSpace c" by (cases g) auto
  from assms(1) obtain a v where w: "w = a # v" and a: "\<not> IsSpace a" and v: "\<forall>c\<in>set v. \<not> IsSpace c"
    by (cases w) (auto simp: word_def)
  have "Fields (w @ g) = FieldsFunc_loop IsSpace (Some [a]) (v @ g)"
    using a by (simp add: Fields_def w)
  also have "\<dots> = FieldsFunc_loop IsSpace (Some ([a] @ v)) g"
    using v by (rule FieldsFunc_loop_run)
  also have "\<dots> = FieldsFunc_loop IsSpace (Some (w @ [c])) t"
    using c by (simp add: w g)
  also have "\<dots> = (w @ hd (FieldsFunc_loop IsSpace (Some [c]) t)) # tl (FieldsFunc_loop IsSpace (Some [c]) t)"
    by (rule FieldsFunc_loop_Some_prepend)
  also have "FieldsFunc_loop IsSpace (Some [c]) t = Fields g"
    using c by (simp add: Fields_def g)
  finally show ?thesis .
qed

lemma gjoin_words_hd:
  "ws \<noteq> [] \<Longrightarrow> \<forall>w\<in>set ws. word w \<Longrightarrow> gjoin ws \<noteq> [] \<and> hd (gjoin ws) = hd (hd ws)"
  by (cases ws rule: gjoin.cases) (auto simp: word_def)

lemma gjoin_Fields_gjoin:
  "\<forall>w\<in>set ws. word w \<Longrightarrow> gjoin (Fields (gjoin ws)) = gjoin ws"
proof (induction ws rule: gjoin.induct)
  case 1
  show ?case by (simp add: Fields_def)
next
  case (2 w)
  then show ?case by (simp add: Fields_word)
next
  case (3 w1 w2 ws)
  let ?g = "gjoin (w2 # ws)" and ?F = "Fields (gjoin (w2 # ws))"
  from 3(2) have w1: "word w1" and w2: "word w2" and rest: "\<forall>w\<in>set (w2 # ws). word w" by simp_all
  have g: "?g \<noteq> []" "hd ?g = hd w2"
    using gjoin_words_hd [of "w2 # ws"] rest by simp_all
  have "\<not> IsSpace (hd w2)" using w2 by (cases w2) (auto simp: word_def)
  with g have gh: "\<not> IsSpace (hd ?g)" by simp
  have F: "?F \<noteq> []" "hd ?F \<noteq> []" "hd (hd ?F) = hd w2"
    using Fields_nonspace_hd [OF g(1) gh] g(2) by simp_all
  have ih: "gjoin ?F = ?g" using 3(1) rest by simp
  obtain f1 F' where F1: "?F = f1 # F'" using F(1) by (cases ?F) auto
  show ?case
  proof (cases "last w1 = GT \<and> hd w2 = LT")
    case True
    have "Fields (gjoin (w1 # w2 # ws)) = Fields (w1 @ ?g)" using True by simp
    also have "\<dots> = (w1 @ hd ?F) # tl ?F"
      using w1 g(1) gh by (rule Fields_word_append)
    finally have "gjoin (Fields (gjoin (w1 # w2 # ws))) = w1 @ gjoin (hd ?F # tl ?F)"
      using F(2) by (simp add: gjoin_glue_hd)
    also have "hd ?F # tl ?F = ?F" using F(1) by simp
    finally show ?thesis using ih True by simp
  next
    case False
    have sp: "gjoin (w1 # w2 # ws) = w1 @ [SP] @ ?g" using False by auto
    have "Fields (gjoin (w1 # w2 # ws)) = Fields (w1 @ [SP] @ ?g)" by (simp only: sp)
    also have "\<dots> = Fields w1 @ ?F" by (rule Fields_sep) simp_all
    also have "\<dots> = w1 # f1 # F'" using w1 F1 by (simp add: Fields_word)
    finally have "gjoin (Fields (gjoin (w1 # w2 # ws))) = w1 @ [SP] @ gjoin (f1 # F')"
      using False F(3) F1 by auto
    then show ?thesis using ih F1 sp by simp
  qed
qed

lemma FieldsFunc_loop_upto_nonsep:
  "\<not> f a \<Longrightarrow> \<exists>out w. \<forall>ys. FieldsFunc_loop f st (p @ a # ys) = out @ FieldsFunc_loop f (Some (w @ [a])) ys"
proof (induction p arbitrary: st)
  case Nil
  show ?case
  proof (cases st)
    case None
    have "\<forall>ys. FieldsFunc_loop f st ([] @ a # ys) = [] @ FieldsFunc_loop f (Some ([] @ [a])) ys"
      using Nil None by simp
    then show ?thesis by blast
  next
    case (Some u)
    have "\<forall>ys. FieldsFunc_loop f st ([] @ a # ys) = [] @ FieldsFunc_loop f (Some (u @ [a])) ys"
      using Nil Some by simp
    then show ?thesis by blast
  qed
next
  case (Cons r p)
  show ?case
  proof (cases "f r")
    case True
    from Cons.IH [OF Cons.prems, where st = None] obtain out w where
      ow: "\<forall>ys. FieldsFunc_loop f None (p @ a # ys) = out @ FieldsFunc_loop f (Some (w @ [a])) ys"
      by blast
    let ?pre = "case st of Some u \<Rightarrow> [u] | None \<Rightarrow> []"
    have "\<forall>ys. FieldsFunc_loop f st ((r # p) @ a # ys) = (?pre @ out) @ FieldsFunc_loop f (Some (w @ [a])) ys"
      using True ow by (cases st) simp_all
    then show ?thesis by blast
  next
    case False
    let ?st = "Some ((case st of Some u \<Rightarrow> u | None \<Rightarrow> []) @ [r])"
    from Cons.IH [OF Cons.prems, where st = ?st] obtain out w where
      ow: "\<forall>ys. FieldsFunc_loop f ?st (p @ a # ys) = out @ FieldsFunc_loop f (Some (w @ [a])) ys"
      by blast
    have "\<forall>ys. FieldsFunc_loop f st ((r # p) @ a # ys) = out @ FieldsFunc_loop f (Some (w @ [a])) ys"
      using False ow by (cases st) simp_all
    then show ?thesis by blast
  qed
qed

lemma gjoin_merge:
  "u \<noteq> [] \<Longrightarrow> b \<noteq> [] \<Longrightarrow> last u = GT \<Longrightarrow> hd b = LT \<Longrightarrow>
   gjoin (out @ (u @ b) # B) = gjoin (out @ u # b # B)"
proof (induction out)
  case Nil
  then show ?case by (simp add: gjoin_glue_hd)
next
  case (Cons o1 out)
  show ?case
  proof (cases out)
    case Nil
    have "gjoin ((u @ b) # B) = gjoin (u # b # B)" using Cons.prems by (simp add: gjoin_glue_hd)
    then show ?thesis using Nil Cons.prems(1) by simp
  next
    case (Cons o2 out')
    then show ?thesis using Cons.IH Cons.prems by simp
  qed
qed

lemma gjoin_Fields_intertag:
  assumes "\<forall>c\<in>set w. IsSpace c"
  shows "gjoin (Fields (xs @ GT # w @ LT # ys)) = gjoin (Fields (xs @ GT # LT # ys))"
proof (cases w)
  case Nil
  then show ?thesis by simp
next
  case (Cons c w')
  with assms have c: "IsSpace c" and w': "\<forall>c\<in>set w'. IsSpace c" by simp_all
  have "\<not> IsSpace GT" by simp
  from FieldsFunc_loop_upto_nonsep [where f = IsSpace and a = GT and st = None and p = xs, OF this]
  obtain out u where
    ou: "\<And>zs. FieldsFunc_loop IsSpace None (xs @ GT # zs) = out @ FieldsFunc_loop IsSpace (Some (u @ [GT])) zs"
    by blast
  let ?B = "FieldsFunc_loop IsSpace (Some [LT]) ys"
  have B: "?B = ([LT] @ hd (FieldsFunc_loop IsSpace (Some []) ys)) # tl (FieldsFunc_loop IsSpace (Some []) ys)"
    using FieldsFunc_loop_Some_prepend [of IsSpace "[LT]" "[]" ys] by simp
  then obtain b B' where bB: "?B = b # B'" and b: "b \<noteq> []" "hd b = LT" by simp
  have "FieldsFunc_loop IsSpace (Some (u @ [GT])) (c # w' @ LT # ys) =
        (u @ [GT]) # FieldsFunc_loop IsSpace None (w' @ LT # ys)"
    using c by simp
  also have "FieldsFunc_loop IsSpace None (w' @ LT # ys) = FieldsFunc_loop IsSpace None (LT # ys)"
    using w' by (rule FieldsFunc_loop_leading)
  also have "\<dots> = ?B" by simp
  finally have l: "Fields (xs @ GT # w @ LT # ys) = out @ (u @ [GT]) # b # B'"
    using ou [of "w @ LT # ys"] Cons bB by (simp add: Fields_def)
  have "FieldsFunc_loop IsSpace (Some (u @ [GT])) (LT # ys) =
        FieldsFunc_loop IsSpace (Some ((u @ [GT]) @ [LT])) ys"
    by simp
  also have "\<dots> = ((u @ [GT]) @ hd ?B) # tl ?B"
    by (rule FieldsFunc_loop_Some_prepend)
  finally have r: "Fields (xs @ GT # LT # ys) = out @ ((u @ [GT]) @ b) # B'"
    using ou [of "LT # ys"] bB by (simp add: Fields_def)
  have "gjoin (out @ ((u @ [GT]) @ b) # B') = gjoin (out @ (u @ [GT]) # b # B')"
    using b by (intro gjoin_merge) simp_all
  with l r show ?thesis by simp
qed

lemma crlf_to_lf_ReplaceAll: "crlf_to_lf s = ReplaceAll s [CR, LF] [LF]"
proof (induction s rule: crlf_to_lf.induct)
  case (1 a b cs)
  show ?case
  proof (cases "a = CR \<and> b = LF")
    case True
    then show ?thesis using 1 by (simp add: ReplaceAll_crlf_simps)
  next
    case False
    then have "ReplaceAll (a # b # cs) [CR, LF] [LF] = a # ReplaceAll (b # cs) [CR, LF] [LF]"
      by (intro ReplaceAll_crlf_simps(3)) auto
    then show ?thesis using False 1 by auto
  qed
qed (simp_all add: ReplaceAll_crlf_simps)

lemma FieldsFunc_loop_None_empty:
  "FieldsFunc_loop f None t = [] \<longleftrightarrow> (\<forall>c\<in>set t. f c)"
proof (induction t)
  case Nil
  show ?case by simp
next
  case (Cons c t)
  then show ?case by (auto simp: FieldsFunc_loop_Some_ne)
qed

lemma Join_Cons: "Join (u # rest) sep = u @ (if rest = [] then [] else sep @ Join rest sep)"
  by (cases rest) simp_all

lemma collapse_ws_Join:
  "t = [] \<or> \<not> IsSpace (last t) \<Longrightarrow>
     Join (FieldsFunc_loop IsSpace (Some u) t) [SP] = u @ collapse_ws t \<and>
     (t \<noteq> [] \<and> IsSpace (hd t) \<longrightarrow> collapse_ws t = SP # Join (FieldsFunc_loop IsSpace None t) [SP]) \<and>
     (t = [] \<or> \<not> IsSpace (hd t) \<longrightarrow> collapse_ws t = Join (FieldsFunc_loop IsSpace None t) [SP])"
proof (induction t arbitrary: u rule: collapse_ws.induct)
  case 1
  show ?case by simp
next
  case (2 c)
  then show ?case by simp
next
  case (3 c d cs)
  from 3(4) have last: "d # cs = [] \<or> \<not> IsSpace (last (d # cs))" by simp
  have ne: "FieldsFunc_loop IsSpace None (d # cs) \<noteq> []"
  proof
    assume "FieldsFunc_loop IsSpace None (d # cs) = []"
    then have "\<forall>c\<in>set (d # cs). IsSpace c" by (simp only: FieldsFunc_loop_None_empty)
    then have "IsSpace (last (d # cs))" using last_in_set [of "d # cs"] by blast
    with last show False by simp
  qed
  show ?case
  proof (cases "IsSpace c")
    case c: True
    show ?thesis
    proof (cases "IsSpace d")
      case True
      from 3(1) [OF c True last, of u] True
      have ih: "collapse_ws (d # cs) = SP # Join (FieldsFunc_loop IsSpace None (d # cs)) [SP]"
        by simp
      have fl: "FieldsFunc_loop IsSpace (Some u) (c # d # cs) = u # FieldsFunc_loop IsSpace None (d # cs)"
        using c by simp
      have a: "Join (FieldsFunc_loop IsSpace (Some u) (c # d # cs)) [SP] =
               u @ SP # Join (FieldsFunc_loop IsSpace None (d # cs)) [SP]"
        using ne by (simp only: fl Join_Cons) simp
      have b: "FieldsFunc_loop IsSpace None (c # d # cs) = FieldsFunc_loop IsSpace None (d # cs)"
        using c by simp
      have cw: "collapse_ws (c # d # cs) = collapse_ws (d # cs)" using c True by simp
      show ?thesis using a b cw ih c by simp
    next
      case False
      from 3(2) [OF c False last, of u] False
      have ih: "collapse_ws (d # cs) = Join (FieldsFunc_loop IsSpace None (d # cs)) [SP]"
        by simp
      have fl: "FieldsFunc_loop IsSpace (Some u) (c # d # cs) = u # FieldsFunc_loop IsSpace None (d # cs)"
        using c by simp
      have a: "Join (FieldsFunc_loop IsSpace (Some u) (c # d # cs)) [SP] =
               u @ SP # Join (FieldsFunc_loop IsSpace None (d # cs)) [SP]"
        using ne by (simp only: fl Join_Cons) simp
      have b: "FieldsFunc_loop IsSpace None (c # d # cs) = FieldsFunc_loop IsSpace None (d # cs)"
        using c by simp
      have cw: "collapse_ws (c # d # cs) = SP # collapse_ws (d # cs)" using c False by simp
      show ?thesis using a b cw ih c by simp
    qed
  next
    case False
    from 3(3) [OF False last]
    have ih: "\<And>v. Join (FieldsFunc_loop IsSpace (Some v) (d # cs)) [SP] = v @ collapse_ws (d # cs)"
      by blast
    have a: "FieldsFunc_loop IsSpace (Some u) (c # d # cs) = FieldsFunc_loop IsSpace (Some (u @ [c])) (d # cs)"
      using False by simp
    have b: "FieldsFunc_loop IsSpace None (c # d # cs) = FieldsFunc_loop IsSpace (Some [c]) (d # cs)"
      using False by simp
    have cw: "collapse_ws (c # d # cs) = c # collapse_ws (d # cs)" using False by simp
    show ?thesis using False by (simp only: a b cw ih) simp
  qed
qed

lemma TrimSpace_ends:
  "TrimSpace s = [] \<or> (\<not> IsSpace (hd (TrimSpace s)) \<and> \<not> IsSpace (last (TrimSpace s)))"
proof (cases "TrimSpace s = []")
  case True
  then show ?thesis by simp
next
  case False
  let ?m = "dropWhile IsSpace s"
  let ?d = "dropWhile IsSpace (rev ?m)"
  have t: "TrimSpace s = rev ?d" by (simp add: TrimSpace_def)
  with False have d: "?d \<noteq> []" by simp
  then have "\<not> IsSpace (hd ?d)" by (rule hd_dropWhile)
  then have l: "\<not> IsSpace (last (TrimSpace s))" using d by (simp add: t last_rev)
  have m: "?m \<noteq> []"
  proof
    assume "?m = []"
    then have "?d = []" by (simp del: dropWhile_eq_Nil_conv)
    with d show False by simp
  qed
  then have hm: "\<not> IsSpace (hd ?m)" by (rule hd_dropWhile)
  have "rev ?m = takeWhile IsSpace (rev ?m) @ ?d" by simp
  then have "?m = rev ?d @ rev (takeWhile IsSpace (rev ?m))"
    by (metis rev_append rev_rev_ident)
  then have "hd ?m = hd (rev ?d)" using d by (metis hd_append2 rev_is_Nil_conv)
  with hm have "\<not> IsSpace (hd (TrimSpace s))" by (simp add: t)
  with l show ?thesis by simp
qed

lemma collapse_ws_TrimSpace: "collapse_ws (TrimSpace s) = Join (Fields (TrimSpace s)) [SP]"
  using TrimSpace_ends [of s] collapse_ws_Join [of "TrimSpace s" "[]"]
  by (auto simp: Fields_def)

lemma strip_intertag_tags:
  "\<forall>c\<in>set t. IsSpace c \<longrightarrow> c = SP \<Longrightarrow> strip_intertag t = ReplaceAllString_tags t"
proof (induction t rule: length_induct)
  case (1 t)
  show ?case
  proof (cases t)
    case Nil
    then show ?thesis by simp
  next
    case (Cons c cs)
    have dw: "dropWhile IsSpace cs = dropWhile reSpace cs"
    proof (rule dropWhile_cong)
      fix x assume "x \<in> set cs"
      with 1(2) Cons have "IsSpace x \<longrightarrow> x = SP" by simp
      then show "IsSpace x = reSpace x" using reSpace_IsSpace [of x] by auto
    qed simp
    have sub: "\<forall>c\<in>set (dropWhile reSpace cs). IsSpace c \<longrightarrow> c = SP"
      using 1(2) Cons by (auto dest: set_dropWhileD)
    have len: "length (dropWhile reSpace cs) < length t"
      using length_dropWhile_le [of reSpace cs] Cons by simp
    have ihc: "strip_intertag cs = ReplaceAllString_tags cs"
      using 1 Cons by simp
    show ?thesis
    proof (cases "dropWhile reSpace cs")
      case Nil
      then show ?thesis
        using \<open>t = c # cs\<close> dw ihc by (simp del: dropWhile_eq_Nil_conv)
    next
      case (Cons d ds)
      have "length ds < length t" using len Cons by simp
      moreover have "\<forall>c\<in>set ds. IsSpace c \<longrightarrow> c = SP" using sub Cons by simp
      ultimately have "strip_intertag ds = ReplaceAllString_tags ds" using 1(1) by blast
      then show ?thesis using Cons \<open>t = c # cs\<close> dw ihc by simp
    qed
  qed
qed

lemma Join_words_spaces:
  "\<forall>w\<in>set ws. word w \<Longrightarrow> \<forall>c\<in>set (Join ws [SP]). IsSpace c \<longrightarrow> c = SP"
  by (induction ws "[SP]" rule: Join.induct) (auto simp: word_def)

subsection \<open>Diagnostics, formatting and scanning\<close>

lemma Sprintf_d_0: "Sprintf_d 0 = S ''0''"
  by (simp add: Sprintf_d_def decimal.simps S_def)

lemma HasError_Append_single:
  "HasError (Append ds [d]) \<longleftrightarrow> HasError ds \<or> Severity d = SeverityError"
  by (auto simp: HasError_def Append_def list_ex_iff)

lemma HasError_AddError [simp]: "HasError (AddError ds s d)"
  by (simp add: AddError_def HasError_Append_single)

lemma HasError_Nil [simp]: "\<not> HasError []"
  by (simp add: HasError_def)

lemma Append_Nil [simp]: "Append ds [] = ds"
  by (simp add: Append_def)

lemma normalize_stored:
  "normalize_inline (S ''<html><head></head><body><h2>Welcome</h2></body></html>'') =
   S ''<html><head></head><body><h2>Welcome</h2></body></html>''"
  by (simp add: S_def normalize_inline_def ReplaceAll_def ReplaceAll_scan.simps TrimSpace_def Fields_def IsSpace_def
      reSpace_def CR_def LF_def SP_def GT_def LT_def)

lemma normalize_planned:
  "normalize_inline (S ''<html>'' @ [LF] @ S ''  <head></head>'' @ [LF] @
              S ''  <body><h2>Welcome</h2></body>'' @ [LF] @ S ''</html>'') =
   S ''<html><head></head><body><h2>Welcome</h2></body></html>''"
  by (simp add: S_def normalize_inline_def ReplaceAll_def ReplaceAll_scan.simps TrimSpace_def Fields_def IsSpace_def
      reSpace_def CR_def LF_def SP_def GT_def LT_def)

lemma set_Append: "set (Append ds new) = set ds \<union> set new"
  unfolding Append_def by (induction new arbitrary: ds) auto

lemma SkipSpace_Inr: "SkipSpace t = Inr s \<Longrightarrow> s = dropWhile IsSpace t"
proof (induction t)
  case Nil
  then show ?case by simp
next
  case (Cons r rs)
  show ?case
  proof (cases "r = CR \<and> (case rs of [] \<Rightarrow> False | n # _ \<Rightarrow> n = LF)")
    case True
    with Cons show ?thesis by simp
  next
    case False
    with Cons show ?thesis by (auto split: if_splits)
  qed
qed

lemma doScanf_d_Inr:
  assumes "doScanf_d t = Inr i"
  shows "begins_with_decimal_integer (dropWhile IsSpace t)"
proof -
  from assms obtain s where s: "SkipSpace t = Inr s" and i: "scanInt s = Inr i"
    by (auto simp: doScanf_d_def split: sum.splits)
  from i obtain s' where s': "SkipSpace s = Inr s'" by (auto simp: scanInt_def split: sum.splits)
  have "s = dropWhile IsSpace t" using s by (rule SkipSpace_Inr)
  moreover have "s' = dropWhile IsSpace s" using s' by (rule SkipSpace_Inr)
  ultimately have eq: "s' = dropWhile IsSpace t" by simp
  have "begins_with_decimal_integer s'"
  proof (cases s')
    case Nil
    with i s' show ?thesis by (simp add: scanInt_def)
  next
    case (Cons c cs)
    show ?thesis
    proof (cases "isSign c")
      case True
      show ?thesis
      proof (cases cs)
        case Nil
        with i s' Cons True show ?thesis by (simp add: scanInt_def)
      next
        case (Cons d ds)
        have "isDigit d"
        proof (rule ccontr)
          assume "\<not> isDigit d"
          with i s' \<open>s' = c # cs\<close> True Cons show False by (simp add: scanInt_def)
        qed
        with True Cons \<open>s' = c # cs\<close> show ?thesis
          by (simp add: begins_with_decimal_integer_def)
      qed
    next
      case False
      have "isDigit c"
      proof (rule ccontr)
        assume "\<not> isDigit c"
        with i s' Cons False show False by (simp add: scanInt_def)
      qed
      with Cons show ?thesis by (simp add: begins_with_decimal_integer_def)
    qed
  qed
  with eq show ?thesis by simp
qed

lemma dropWhile_take_prefix: "\<exists>k. dropWhile P (take n s) = take k (dropWhile P s)"
proof (induction s arbitrary: n)
  case Nil
  show ?case by simp
next
  case (Cons c s)
  show ?case
  proof (cases n)
    case 0
    have "dropWhile P (take n (c # s)) = take 0 (dropWhile P (c # s))" using 0 by simp
    then show ?thesis by blast
  next
    case (Suc m)
    show ?thesis
    proof (cases "P c")
      case True
      then show ?thesis using Cons [of m] Suc by simp
    next
      case False
      have "dropWhile P (take n (c # s)) = take n (dropWhile P (c # s))" using False Suc by simp
      then show ?thesis by blast
    qed
  qed
qed

lemma begins_with_decimal_integer_take:
  assumes "begins_with_decimal_integer (take k t)"
  shows "begins_with_decimal_integer t"
proof (cases t)
  case Nil
  with assms show ?thesis by simp
next
  case (Cons c cs)
  show ?thesis
  proof (cases k)
    case 0
    with assms show ?thesis by (simp add: begins_with_decimal_integer_def)
  next
    case (Suc m)
    show ?thesis
    proof (cases cs)
      case Nil
      with assms Cons Suc show ?thesis by (simp add: begins_with_decimal_integer_def)
    next
      case (Cons d ds)
      with assms \<open>t = c # cs\<close> Suc show ?thesis
        by (cases m) (auto simp: begins_with_decimal_integer_def)
    qed
  qed
qed

lemma Sscanf_d_unparsed:
  assumes "\<not> begins_with_decimal_integer (dropWhile IsSpace s)"
  shows "fst (Sscanf_d s v) = v"
proof (cases "doScanf_d (take hugeWid s)")
  case (Inl e)
  then show ?thesis by (simp add: Sscanf_d_def)
next
  case (Inr i)
  then have "begins_with_decimal_integer (dropWhile IsSpace (take hugeWid s))"
    by (rule doScanf_d_Inr)
  moreover obtain k where "dropWhile IsSpace (take hugeWid s) = take k (dropWhile IsSpace s)"
    using dropWhile_take_prefix [of IsSpace hugeWid s] by (elim exE)
  ultimately have "begins_with_decimal_integer (take k (dropWhile IsSpace s))"
    by (simp only:)
  then have "begins_with_decimal_integer (dropWhile IsSpace s)"
    by (rule begins_with_decimal_integer_take)
  with assms show ?thesis by (elim notE)
qed

lemma addressing_zero_client:
  "infobipClient (addressing_zero r) =
     map_option
       (\<lambda>c. c\<lparr>EmailAPI := (EmailAPI c)\<lparr>
               GetEmailTemplate := \<lambda>k i. GetEmailTemplate (EmailAPI c) k 0,
               UpdateEmailTemplate := \<lambda>k i a. UpdateEmailTemplate (EmailAPI c) k 0 a,
               RemoveEmailTemplate := \<lambda>k i. RemoveEmailTemplate (EmailAPI c) k 0\<rparr>\<rparr>)
       (infobipClient r)"
  "resourceApiKey (addressing_zero r) = resourceApiKey r"
  by (simp_all add: addressing_zero_def)

lemma Sscanf_d_space_7: "Sscanf_d (S '' 7'') 0 = (7, 1, None)"
  by (simp add: Sscanf_d_def doScanf_d_def scanInt_def ParseInt_def digits_value_def hugeWid_def
      S_def IsSpace_def isDigit_def isSign_def CR_def LF_def Let_def)

lemma Sprintf_d_7: "Sprintf_d 7 = S ''7''"
  by (simp add: Sprintf_d_def decimal.simps S_def)

section \<open>The claims about normalization\<close>

text \<open>
  C5.  For every input string, \<^verbatim>\<open>normalizeHTML\<close> equals the reference definition that
  applies the four steps of the specification in order: CRLF to LF, trim the whole string,
  collapse every run of white space to one space, delete the white space directly between
  a \<^verbatim>\<open>>\<close> and a following \<^verbatim>\<open><\<close>.
\<close>

theorem C5_normalizeHTML_refines_spec: "normalizeHTML raw = normalize_spec raw"
proof -
  let ?t = "TrimSpace (ReplaceAll raw [CR, LF] [LF])"
  have "\<forall>w\<in>set (Fields ?t). word w" by (simp add: Fields_words)
  then have "\<forall>c\<in>set (Join (Fields ?t) [SP]). IsSpace c \<longrightarrow> c = SP" by (rule Join_words_spaces)
  then have "strip_intertag (Join (Fields ?t) [SP]) = ReplaceAllString_tags (Join (Fields ?t) [SP])"
    by (rule strip_intertag_tags)
  then show ?thesis
    by (simp add: normalizeHTML_def normalize_spec_def trim_spec_def crlf_to_lf_ReplaceAll
        collapse_ws_TrimSpace TrimSpace_def [symmetric])
qed

text \<open>
  C6.  \<^verbatim>\<open>normalizeHTML\<close> is idempotent: normalizing a normalized string changes nothing.
\<close>

theorem C6_normalizeHTML_idempotent: "normalizeHTML a = normalizeHTML (normalizeHTML a)"
proof -
  have "\<forall>w\<in>set (Fields a). word w" by (simp add: Fields_words)
  then have "gjoin (Fields (gjoin (Fields a))) = gjoin (Fields a)" by (rule gjoin_Fields_gjoin)
  then show ?thesis by (simp add: normalizeHTML_gjoin)
qed

text \<open>
  C7.  Two strings that differ only in white-space runs, only in inter-tag white space, or
  only in CRLF against LF line endings (any number of such differences) have the same
  normal form.
\<close>

theorem C7_normalizeHTML_ws_variant: "ws_variant a b \<Longrightarrow> normalizeHTML a = normalizeHTML b"
proof (induction rule: ws_variant.induct)
  case (run w1 w2 xs ys)
  then show ?case by (simp add: normalizeHTML_gjoin Fields_sep)
next
  case (intertag w1 w2 xs ys)
  then show ?case
    by (simp only: normalizeHTML_gjoin gjoin_Fields_intertag [of w1] gjoin_Fields_intertag [of w2])
next
  case (crlf xs ys)
  have "Fields (xs @ [CR, LF] @ ys) = Fields xs @ Fields ys" by (rule Fields_sep) simp_all
  moreover have "Fields (xs @ [LF] @ ys) = Fields xs @ Fields ys" by (rule Fields_sep) simp_all
  ultimately show ?case by (simp add: normalizeHTML_gjoin)
qed simp_all

theorem C7_normalizeHTML_ws_variant_witness:
  "ws_variant (S ''<p>'' @ S ''  '' @ S ''<b>'') (S ''<p>'' @ [] @ S ''<b>'') \<and>
   normalizeHTML (S ''<p>'' @ S ''  '' @ S ''<b>'') = normalizeHTML (S ''<p>'' @ [] @ S ''<b>'')"
proof -
  have h: "ws_variant (S ''<p>'' @ S ''  '' @ S ''<b>'') (S ''<p>'' @ [] @ S ''<b>'')"
    using ws_variant.intertag [of "S ''  ''" "[]" "S ''<p''" "S ''b>''"]
    by (simp add: S_def GT_def LT_def IsSpace_def)
  show ?thesis using h C7_normalizeHTML_ws_variant [OF h] by simp
qed

text \<open>
  C9.  The \<^verbatim>\<open>normalize\<close> closure written inside \<^verbatim>\<open>PlanModifyString\<close> and the
  top-level \<^verbatim>\<open>normalizeHTML\<close> return the same output for every input string.
\<close>

theorem C9_inline_normalize_eq_normalizeHTML: "normalize_inline raw = normalizeHTML raw"
  by (simp add: normalize_inline_def normalizeHTML_def)

section \<open>The claims about the resource and the provider\<close>

text \<open>
  C1.  A Create call whose remote create request fails must report an error and write no
  local state.  The code adds the error diagnostic but does not return (Read, Update and
  Delete do): with a non-nil template pointer beside the error it goes on to write the
  state, with \<^verbatim>\<open>id\<close> set to the printed id of that template; with a nil pointer it panics
  on the first field access.
\<close>

theorem C1_Create_failure_commits_state:
  "(case Create (resource_of (constant_service (Some zero_template) (Some \<lparr>StatusCode = 500\<rparr>)
                    (Some (S ''500 Internal Server Error''))))
           now \<lparr>create_Plan = Data [] plan\<rparr> empty_response of
      Panic \<Rightarrow> False
    | Return resp \<Rightarrow>
        HasError (Diagnostics resp) \<and>
        State resp \<noteq> None \<and>
        map_option ID (State resp) = Some (Known (S ''0''))) \<and>
   Create (resource_of (constant_service None (Some \<lparr>StatusCode = 500\<rparr>)
                    (Some (S ''500 Internal Server Error''))))
           now \<lparr>create_Plan = Data [] plan\<rparr> empty_response = Panic"
  by (simp add: Create_def resource_of_def constant_service_def empty_response_def
      State_Set_def StringValue_def Sprintf_d_0 zero_template_def)

text \<open>
  C2.  When the stored and the planned value of \<^verbatim>\<open>html\<close> are both non-null and have the
  same normal form, the plan modifier sets the planned value to the stored value; when
  either is null, the response is left as it was.
\<close>

theorem C2_PlanModifyString_suppresses:
  "(\<not> IsNull (StateValue req) \<and> \<not> IsNull (PlanValue req) \<and>
      normalize_inline (ValueString (StateValue req)) = normalize_inline (ValueString (PlanValue req))
      \<longrightarrow> resp_PlanValue (PlanModifyString req resp) = StateValue req) \<and>
   (IsNull (StateValue req) \<or> IsNull (PlanValue req) \<longrightarrow> PlanModifyString req resp = resp)"
  by (simp add: PlanModifyString_def)

theorem C2_PlanModifyString_suppresses_witness:
  "resp_PlanValue
     (PlanModifyString
        \<lparr>StateValue = Known (S ''<html><head></head><body><h2>Welcome</h2></body></html>''),
         PlanValue = Known (S ''<html>'' @ [LF] @ S ''  <head></head>'' @ [LF] @
                            S ''  <body><h2>Welcome</h2></body>'' @ [LF] @ S ''</html>'')\<rparr>
        \<lparr>resp_PlanValue = Known (S ''<html>'' @ [LF] @ S ''  <head></head>'' @ [LF] @
                            S ''  <body><h2>Welcome</h2></body>'' @ [LF] @ S ''</html>'')\<rparr>) =
   Known (S ''<html><head></head><body><h2>Welcome</h2></body></html>'') \<and>
   PlanModifyString \<lparr>StateValue = Null, PlanValue = Known (S ''<p>'')\<rparr>
     \<lparr>resp_PlanValue = Known (S ''<p>'')\<rparr> = \<lparr>resp_PlanValue = Known (S ''<p>'')\<rparr>"
proof -
  let ?st = "S ''<html><head></head><body><h2>Welcome</h2></body></html>''"
  let ?pl = "S ''<html>'' @ [LF] @ S ''  <head></head>'' @ [LF] @
             S ''  <body><h2>Welcome</h2></body>'' @ [LF] @ S ''</html>''"
  let ?req = "\<lparr>StateValue = Known ?st, PlanValue = Known ?pl\<rparr>"
  let ?nullreq = "\<lparr>StateValue = Null, PlanValue = Known (S ''<p>'')\<rparr>"
  have n: "normalize_inline ?st = normalize_inline ?pl"
    by (simp only: normalize_stored normalize_planned)
  have h: "\<not> IsNull (StateValue ?req) \<and> \<not> IsNull (PlanValue ?req) \<and>
           normalize_inline (ValueString (StateValue ?req)) = normalize_inline (ValueString (PlanValue ?req))"
  proof (intro conjI)
    show "normalize_inline (ValueString (StateValue ?req)) = normalize_inline (ValueString (PlanValue ?req))"
      by (simp only: StringRequest.select_convs ValueString.simps n)
  qed simp_all
  have hn: "IsNull (StateValue ?nullreq) \<or> IsNull (PlanValue ?nullreq)" by simp
  have "resp_PlanValue (PlanModifyString ?req \<lparr>resp_PlanValue = Known ?pl\<rparr>) = StateValue ?req"
    using C2_PlanModifyString_suppresses [of ?req "\<lparr>resp_PlanValue = Known ?pl\<rparr>"] h by blast
  moreover have "PlanModifyString ?nullreq \<lparr>resp_PlanValue = Known (S ''<p>'')\<rparr> =
                 \<lparr>resp_PlanValue = Known (S ''<p>'')\<rparr>"
    using C2_PlanModifyString_suppresses [of ?nullreq "\<lparr>resp_PlanValue = Known (S ''<p>'')\<rparr>"] hn
    by blast
  ultimately show ?thesis by simp
qed

text \<open>
  C3.  An Update that succeeds (no decoding error, a client, and a remote answer without
  error) saves a state whose \<^verbatim>\<open>createdAt\<close> is the prior state's when that is non-empty and
  the current time otherwise, and whose \<^verbatim>\<open>updatedAt\<close> is the current time, whatever the
  remote response holds.
\<close>

theorem C3_Update_timestamps:
  assumes "\<not> HasError (Append (Diagnostics resp) (Get_diags (update_Plan req)))"
    and "\<not> HasError (Append (Append (Diagnostics resp) (Get_diags (update_Plan req)))
                        (Get_diags (update_State req)))"
    and "infobipClient r = Some c"
    and "UpdateEmailTemplate (EmailAPI c) (resourceApiKey r)
           (fst (Sscanf_d (ValueString (ID (Get_value (update_State req)))) 0))
           (template_args (Get_value (update_Plan req))) = (Some t, h, None)"
  shows "\<exists>resp' m. Update r now req resp = Return resp' \<and> State resp' = Some m \<and>
           CreatedAt m =
             (if ValueString (CreatedAt (Get_value (update_State req))) \<noteq> []
              then CreatedAt (Get_value (update_State req))
              else Known (now 0)) \<and>
           UpdatedAt m =
             Known (now (if ValueString (CreatedAt (Get_value (update_State req))) \<noteq> [] then 0 else 1))"
  using assms by (simp add: Update_def Let_def State_Set_def StringValue_def)

theorem C3_Update_timestamps_witness:
  "\<exists>resp' m.
     Update (resource_of (constant_service (Some zero_template) None None))
       (\<lambda>k. if k = 0 then S ''Saturday, 31-Oct-26 10:00:00 UTC'' else S ''Saturday, 31-Oct-26 10:00:01 UTC'')
       \<lparr>update_Plan = Data [] sample_model, update_State = Data [] sample_model\<rparr> empty_response
       = Return resp' \<and>
     State resp' = Some m \<and> CreatedAt m = Known (S ''2020-01-01'') \<and>
     UpdatedAt m = Known (S ''Saturday, 31-Oct-26 10:00:00 UTC'')"
  using C3_Update_timestamps [of empty_response
      "\<lparr>update_Plan = Data [] sample_model, update_State = Data [] sample_model\<rparr>"
      "resource_of (constant_service (Some zero_template) None None)"
      "\<lparr>Host = S ''https://api.example.com'', EmailAPI = constant_service (Some zero_template) None None\<rparr>"
      zero_template None
      "\<lambda>k. if k = 0 then S ''Saturday, 31-Oct-26 10:00:00 UTC'' else S ''Saturday, 31-Oct-26 10:00:01 UTC''"]
  by (simp add: empty_response_def resource_of_def constant_service_def sample_model_def S_def)

text \<open>
  C4.  A Delete whose remote request returns HTTP 404 removes the local state and adds no
  diagnostic; a Delete whose remote request fails otherwise reports an error and leaves the
  state as it was.
\<close>

theorem C4_Delete_not_found_is_success:
  assumes "\<not> HasError (Append (Diagnostics resp) (Get_diags (delete_State req)))"
    and "infobipClient r = Some c"
    and "RemoveEmailTemplate (EmailAPI c) (resourceApiKey r)
           (fst (Sscanf_d (ValueString (ID (Get_value (delete_State req)))) 0)) = (h, e)"
  shows "(h = Some hr \<and> StatusCode hr = 404 \<longrightarrow>
            Delete r req resp =
              Return \<lparr>Diagnostics = Append (Diagnostics resp) (Get_diags (delete_State req)),
                      State = None\<rparr>) \<and>
         (e \<noteq> None \<and> (\<forall>hr'. h = Some hr' \<longrightarrow> StatusCode hr' \<noteq> 404) \<longrightarrow>
            (\<exists>resp'. Delete r req resp = Return resp' \<and> HasError (Diagnostics resp') \<and>
                      State resp' = State resp))"
  using assms by (cases h; cases e) (auto simp: Delete_def Let_def RemoveResource_def)

theorem C4_Delete_not_found_is_success_witness:
  "Delete (resource_of (constant_service None (Some \<lparr>StatusCode = 404\<rparr>) (Some (S ''404 Not Found''))))
     \<lparr>delete_State = Data [] sample_model\<rparr> \<lparr>Diagnostics = [], State = Some sample_model\<rparr> =
     Return \<lparr>Diagnostics = [], State = None\<rparr> \<and>
   (\<exists>resp'.
      Delete (resource_of (constant_service None (Some \<lparr>StatusCode = 500\<rparr>) (Some (S ''500''))))
        \<lparr>delete_State = Data [] sample_model\<rparr> \<lparr>Diagnostics = [], State = Some sample_model\<rparr> =
        Return resp' \<and>
      HasError (Diagnostics resp') \<and> State resp' = Some sample_model)"
  using
    C4_Delete_not_found_is_success [of "\<lparr>Diagnostics = [], State = Some sample_model\<rparr>"
      "\<lparr>delete_State = Data [] sample_model\<rparr>"
      "resource_of (constant_service None (Some \<lparr>StatusCode = 404\<rparr>) (Some (S ''404 Not Found'')))"
      "\<lparr>Host = S ''https://api.example.com'',
        EmailAPI = constant_service None (Some \<lparr>StatusCode = 404\<rparr>) (Some (S ''404 Not Found''))\<rparr>"
      "Some \<lparr>StatusCode = 404\<rparr>" "Some (S ''404 Not Found'')" "\<lparr>StatusCode = 404\<rparr>"]
    C4_Delete_not_found_is_success [of "\<lparr>Diagnostics = [], State = Some sample_model\<rparr>"
      "\<lparr>delete_State = Data [] sample_model\<rparr>"
      "resource_of (constant_service None (Some \<lparr>StatusCode = 500\<rparr>) (Some (S ''500'')))"
      "\<lparr>Host = S ''https://api.example.com'',
        EmailAPI = constant_service None (Some \<lparr>StatusCode = 500\<rparr>) (Some (S ''500''))\<rparr>"
      "Some \<lparr>StatusCode = 500\<rparr>" "Some (S ''500'')" "\<lparr>StatusCode = 404\<rparr>"]
  by (simp add: resource_of_def constant_service_def)

text \<open>
  C8.  For known or null configuration values, \<^verbatim>\<open>Configure\<close> works with the resolved value
  of each setting: the configuration value when it is set, even if empty, and the
  environment variable's value when it is null.  An empty resolved value yields the
  per-field error, and the configuration ends there: no client is built, no remote call is
  made (the result does not depend on the service) and no provider data is published.
  With both values non-empty and a verification call without error, the published client
  has the resolved host and key.
\<close>

theorem C8_Configure_resolution:
  assumes "\<not> HasError (Append (cfg_Diagnostics resp) (Get_diags (Config req)))"
    and "\<not> IsUnknown (BaseUrl (Get_value (Config req)))"
    and "\<not> IsUnknown (ApiKey (Get_value (Config req)))"
  shows
    "(let b = resolved_spec env (S ''POCINFOBIPEMAILS_BASE_URL'') (BaseUrl (Get_value (Config req)));
          k = resolved_spec env (S ''POCINFOBIPEMAILS_API_KEY'') (ApiKey (Get_value (Config req)));
          resp' = Configure service env req resp
      in (b = [] \<longrightarrow> missing_base_url \<in> set (cfg_Diagnostics resp')) \<and>
         (k = [] \<longrightarrow> missing_api_key \<in> set (cfg_Diagnostics resp')) \<and>
         (b = [] \<or> k = [] \<longrightarrow>
            HasError (cfg_Diagnostics resp') \<and>
            ResourceData resp' = ResourceData resp \<and>
            DataSourceData resp' = DataSourceData resp \<and>
            resp' = Configure service' env req resp) \<and>
         (b \<noteq> [] \<and> k \<noteq> [] \<and> GetAllEmailTemplates (service b) k = (a, h, None) \<longrightarrow>
            ResourceData resp' = Some \<lparr>client = \<lparr>Host = b, EmailAPI = service b\<rparr>, apiKey = k\<rparr>))"
proof -
  have m: "Severity missing_base_url = SeverityError" "Severity missing_api_key = SeverityError"
    by (simp_all add: missing_base_url_def missing_api_key_def)
  show ?thesis
    using assms m
    by (cases "BaseUrl (Get_value (Config req))"; cases "ApiKey (Get_value (Config req))")
      (auto simp: Configure_def Let_def resolved_spec_def set_Append HasError_Append_single
         NewAPIClient_def)
qed

theorem C8_Configure_resolution_witness:
  "missing_base_url \<in> set (cfg_Diagnostics
     (Configure (\<lambda>host. echo_service)
        [S ''POCINFOBIPEMAILS_BASE_URL'' \<mapsto> S ''https://env.example.com'']
        \<lparr>Config = Data [] \<lparr>BaseUrl = Known [], ApiKey = Known (S ''k'')\<rparr>\<rparr>
        \<lparr>cfg_Diagnostics = [], DataSourceData = None, ResourceData = None\<rparr>)) \<and>
   ResourceData
     (Configure (\<lambda>host. echo_service)
        [S ''POCINFOBIPEMAILS_BASE_URL'' \<mapsto> S ''https://env.example.com'']
        \<lparr>Config = Data [] \<lparr>BaseUrl = Known [], ApiKey = Known (S ''k'')\<rparr>\<rparr>
        \<lparr>cfg_Diagnostics = [], DataSourceData = None, ResourceData = None\<rparr>) = None \<and>
   map_option apiKey (ResourceData
     (Configure (\<lambda>host. echo_service)
        [S ''POCINFOBIPEMAILS_API_KEY'' \<mapsto> S ''envkey'']
        \<lparr>Config = Data [] \<lparr>BaseUrl = Known (S ''https://cfg.example.com''), ApiKey = Null\<rparr>\<rparr>
        \<lparr>cfg_Diagnostics = [], DataSourceData = None, ResourceData = None\<rparr>)) = Some (S ''envkey'')"
proof -
  let ?resp = "\<lparr>cfg_Diagnostics = [], DataSourceData = None, ResourceData = None\<rparr>"
  let ?env1 = "[S ''POCINFOBIPEMAILS_BASE_URL'' \<mapsto> S ''https://env.example.com'']"
  let ?req1 = "\<lparr>Config = Data [] \<lparr>BaseUrl = Known [], ApiKey = Known (S ''k'')\<rparr>\<rparr>"
  let ?env2 = "[S ''POCINFOBIPEMAILS_API_KEY'' \<mapsto> S ''envkey'']"
  let ?req2 = "\<lparr>Config = Data [] \<lparr>BaseUrl = Known (S ''https://cfg.example.com''), ApiKey = Null\<rparr>\<rparr>"
  have s: "S ''https://cfg.example.com'' \<noteq> []" "S ''envkey'' \<noteq> []" by (simp_all add: S_def)
  have g: "GetAllEmailTemplates echo_service (S ''envkey'') = (Some \<lparr>Results = Some []\<rparr>, None, None)"
    by (simp add: echo_service_def)
  have one: "missing_base_url \<in> set (cfg_Diagnostics (Configure (\<lambda>host. echo_service) ?env1 ?req1 ?resp)) \<and>
        ResourceData (Configure (\<lambda>host. echo_service) ?env1 ?req1 ?resp) = None"
    using C8_Configure_resolution [where resp = ?resp and req = ?req1 and env = ?env1
        and service = "\<lambda>host. echo_service" and service' = "\<lambda>host. echo_service"
        and a = None and h = None]
    by (simp add: resolved_spec_def Let_def)
  have two: "map_option apiKey (ResourceData (Configure (\<lambda>host. echo_service) ?env2 ?req2 ?resp)) =
        Some (S ''envkey'')"
    using C8_Configure_resolution [where resp = ?resp and req = ?req2 and env = ?env2
        and service = "\<lambda>host. echo_service" and service' = "\<lambda>host. echo_service"
        and a = "Some \<lparr>Results = Some []\<rparr>" and h = None] s g
    by (simp add: resolved_spec_def Let_def Getenv_def)
  from one two show ?thesis by blast
qed

text \<open>
  C10, for every id that does not begin with a decimal integer, fails for an id that begins
  with white space: \<^verbatim>\<open>" 7"\<close> does not begin with a decimal integer, yet \<^verbatim>\<open>Sscanf\<close> skips
  the space and Read addresses template 7.
\<close>

theorem C10_leading_space_counterexample:
  "\<not> begins_with_decimal_integer (S '' 7'') \<and>
   fst (Sscanf_d (S '' 7'') 0) = 7 \<and>
   (case Read (resource_of echo_service)
           \<lparr>read_State = Data [] (sample_model\<lparr>ID := Known (S '' 7'')\<rparr>)\<rparr> empty_response of
      Panic \<Rightarrow> False
    | Return resp \<Rightarrow> map_option ID (State resp) = Some (Known (S ''7'')))"
proof -
  have "\<not> begins_with_decimal_integer (S '' 7'')"
    by (simp add: begins_with_decimal_integer_def S_def isDigit_def isSign_def)
  moreover have "fst (Sscanf_d (S '' 7'') 0) = 7" by (simp add: Sscanf_d_space_7)
  moreover have "(case Read (resource_of echo_service)
           \<lparr>read_State = Data [] (sample_model\<lparr>ID := Known (S '' 7'')\<rparr>)\<rparr> empty_response of
      Panic \<Rightarrow> False
    | Return resp \<Rightarrow> map_option ID (State resp) = Some (Known (S ''7'')))"
    by (simp add: Read_def resource_of_def echo_service_def empty_response_def Sscanf_d_space_7
        State_Set_def StringValue_def Sprintf_d_7 zero_template_def Let_def)
  ultimately show ?thesis by blast
qed

text \<open>
  C10.  When the \<^verbatim>\<open>id\<close> of the state, after any leading white space, does not begin with
  an optionally signed decimal integer, the scan in Read, Update and Delete fails inside
  \<^verbatim>\<open>Sscanf\<close> only: it returns an error that the code discards, scans nothing and leaves the
  integer id at 0.  No diagnostic comes from it, and the remote call is made with id 0:
  once the state is decoded and a client is there, the result of each operation is the one
  determined by the service's reply for template 0 (its error, its template, or the removal
  of the state), with no diagnostics but those of the decoding and of that reply.  Each
  operation also behaves as it does with a client whose calls all address template 0.
\<close>

theorem C10_unparsed_id_addresses_zero:
  assumes "\<not> begins_with_decimal_integer (dropWhile IsSpace (ValueString (ID st)))"
  shows
    "(\<exists>e. Sscanf_d (ValueString (ID st)) 0 = (0, 0, Some e)) \<and>
     Read r \<lparr>read_State = Data ds st\<rparr> resp =
       Read (addressing_zero r) \<lparr>read_State = Data ds st\<rparr> resp \<and>
     Update r now \<lparr>update_Plan = Data pd plan, update_State = Data ds st\<rparr> resp =
       Update (addressing_zero r) now \<lparr>update_Plan = Data pd plan, update_State = Data ds st\<rparr> resp \<and>
     Delete r \<lparr>delete_State = Data ds st\<rparr> resp =
       Delete (addressing_zero r) \<lparr>delete_State = Data ds st\<rparr> resp \<and>
     (\<not> HasError (Append (Diagnostics resp) ds) \<and> infobipClient r = Some c \<longrightarrow>
        Read r \<lparr>read_State = Data ds st\<rparr> resp =
          (case GetEmailTemplate (EmailAPI c) (resourceApiKey r) 0 of
             (emailTemplate, httpResponse, Some e) \<Rightarrow>
               Return (resp\<lparr>Diagnostics :=
                 AddError (Append (Diagnostics resp) ds) ''Error Reading HashiCups Order''
                   [Lit ''Could not read HashiCups order ID '', Rendered (ID st), Lit '': '',
                    ErrorText e]\<rparr>)
           | (None, httpResponse, None) \<Rightarrow> Panic
           | (Some t, httpResponse, None) \<Rightarrow>
               Return (resp\<lparr>
                 Diagnostics := Append (Diagnostics resp) ds,
                 State := Some (st\<lparr>
                   ID := Known (Sprintf_d (et_ID t)),
                   Name := Known (et_Name t),
                   From := Known (et_From t),
                   ReplyTo := Known (et_ReplyTo t),
                   Subject := Known (et_Subject t),
                   Preheader := Known (et_Preheader t),
                   Html := Known (normalizeHTML (et_HTML t)),
                   IsHtmlEditable := Known (et_IsHTMLEditable t),
                   LandingPage := Known (et_LandingPageID t),
                   ImagePreviewUrl := Known (et_ImagePreviewURL t),
                   CreatedAt := Known (et_CreatedAt t),
                   UpdatedAt := Known (et_UpdatedAt t)\<rparr>)\<rparr>))) \<and>
     (\<not> HasError (Append (Diagnostics resp) pd) \<and>
      \<not> HasError (Append (Append (Diagnostics resp) pd) ds) \<and> infobipClient r = Some c \<longrightarrow>
        Update r now \<lparr>update_Plan = Data pd plan, update_State = Data ds st\<rparr> resp =
          (case UpdateEmailTemplate (EmailAPI c) (resourceApiKey r) 0 (template_args plan) of
             (emailTemplate, httpResponse, Some e) \<Rightarrow>
               Return (resp\<lparr>Diagnostics :=
                 AddError (Append (Append (Diagnostics resp) pd) ds) ''Error Updating Email Template''
                   [Lit ''An error was encountered while updating the email template: '',
                    ErrorText e]\<rparr>)
           | (None, httpResponse, None) \<Rightarrow> Panic
           | (Some t, httpResponse, None) \<Rightarrow>
               Return (resp\<lparr>
                 Diagnostics := Append (Append (Diagnostics resp) pd) ds,
                 State := Some (plan\<lparr>
                   ID := Known (Sprintf_d (et_ID t)),
                   Name := Known (et_Name t),
                   From := Known (et_From t),
                   ReplyTo := Known (et_ReplyTo t),
                   Subject := Known (et_Subject t),
                   Preheader := Known (et_Preheader t),
                   Html := Known (normalizeHTML (et_HTML t)),
                   IsHtmlEditable := Known (et_IsHTMLEditable t),
                   LandingPage := Known (et_LandingPageID t),
                   ImagePreviewUrl := Known (et_ImagePreviewURL t),
                   CreatedAt := (if ValueString (CreatedAt st) \<noteq> [] then CreatedAt st
                                 else Known (now 0)),
                   UpdatedAt := Known (now (if ValueString (CreatedAt st) \<noteq> [] then 0 else 1))\<rparr>)\<rparr>))) \<and>
     (\<not> HasError (Append (Diagnostics resp) ds) \<and> infobipClient r = Some c \<longrightarrow>
        Delete r \<lparr>delete_State = Data ds st\<rparr> resp =
          (case RemoveEmailTemplate (EmailAPI c) (resourceApiKey r) 0 of
             (httpResponse, Some e) \<Rightarrow>
               if (case httpResponse of None \<Rightarrow> False | Some h \<Rightarrow> StatusCode h = 404)
               then Return (resp\<lparr>Diagnostics := Append (Diagnostics resp) ds, State := None\<rparr>)
               else Return (resp\<lparr>Diagnostics :=
                 AddError (Append (Diagnostics resp) ds) ''Error Deleting Email Template''
                   [Lit ''An error was encountered while deleting the email template: '',
                    ErrorText e]\<rparr>)
           | (httpResponse, None) \<Rightarrow>
               Return (resp\<lparr>Diagnostics := Append (Diagnostics resp) ds, State := None\<rparr>)))"
proof -
  have z: "fst (Sscanf_d (ValueString (ID st)) 0) = 0"
    using assms by (rule Sscanf_d_unparsed)
  have s: "\<exists>e. Sscanf_d (ValueString (ID st)) 0 = (0, 0, Some e)"
  proof (cases "doScanf_d (take hugeWid (ValueString (ID st)))")
    case (Inl e)
    then show ?thesis by (simp add: Sscanf_d_def)
  next
    case (Inr i)
    then have "begins_with_decimal_integer (dropWhile IsSpace (take hugeWid (ValueString (ID st))))"
      by (rule doScanf_d_Inr)
    moreover obtain k where
      "dropWhile IsSpace (take hugeWid (ValueString (ID st))) = take k (dropWhile IsSpace (ValueString (ID st)))"
      using dropWhile_take_prefix [of IsSpace hugeWid "ValueString (ID st)"] by (elim exE)
    ultimately have "begins_with_decimal_integer (take k (dropWhile IsSpace (ValueString (ID st))))"
      by (simp only:)
    then have "begins_with_decimal_integer (dropWhile IsSpace (ValueString (ID st)))"
      by (rule begins_with_decimal_integer_take)
    with assms show ?thesis by (elim notE)
  qed
  have rd: "\<not> HasError (Append (Diagnostics resp) ds) \<and> infobipClient r = Some c \<longrightarrow>
        Read r \<lparr>read_State = Data ds st\<rparr> resp =
          (case GetEmailTemplate (EmailAPI c) (resourceApiKey r) 0 of
             (emailTemplate, httpResponse, Some e) \<Rightarrow>
               Return (resp\<lparr>Diagnostics :=
                 AddError (Append (Diagnostics resp) ds) ''Error Reading HashiCups Order''
                   [Lit ''Could not read HashiCups order ID '', Rendered (ID st), Lit '': '',
                    ErrorText e]\<rparr>)
           | (None, httpResponse, None) \<Rightarrow> Panic
           | (Some t, httpResponse, None) \<Rightarrow>
               Return (resp\<lparr>
                 Diagnostics := Append (Diagnostics resp) ds,
                 State := Some (st\<lparr>
                   ID := Known (Sprintf_d (et_ID t)),
                   Name := Known (et_Name t),
                   From := Known (et_From t),
                   ReplyTo := Known (et_ReplyTo t),
                   Subject := Known (et_Subject t),
                   Preheader := Known (et_Preheader t),
                   Html := Known (normalizeHTML (et_HTML t)),
                   IsHtmlEditable := Known (et_IsHTMLEditable t),
                   LandingPage := Known (et_LandingPageID t),
                   ImagePreviewUrl := Known (et_ImagePreviewURL t),
                   CreatedAt := Known (et_CreatedAt t),
                   UpdatedAt := Known (et_UpdatedAt t)\<rparr>)\<rparr>))"
    by (simp add: Read_def Let_def z State_Set_def StringValue_def BoolValue_def
        split: prod.splits option.splits)
  have up: "\<not> HasError (Append (Diagnostics resp) pd) \<and>
      \<not> HasError (Append (Append (Diagnostics resp) pd) ds) \<and> infobipClient r = Some c \<longrightarrow>
        Update r now \<lparr>update_Plan = Data pd plan, update_State = Data ds st\<rparr> resp =
          (case UpdateEmailTemplate (EmailAPI c) (resourceApiKey r) 0 (template_args plan) of
             (emailTemplate, httpResponse, Some e) \<Rightarrow>
               Return (resp\<lparr>Diagnostics :=
                 AddError (Append (Append (Diagnostics resp) pd) ds) ''Error Updating Email Template''
                   [Lit ''An error was encountered while updating the email template: '',
                    ErrorText e]\<rparr>)
           | (None, httpResponse, None) \<Rightarrow> Panic
           | (Some t, httpResponse, None) \<Rightarrow>
               Return (resp\<lparr>
                 Diagnostics := Append (Append (Diagnostics resp) pd) ds,
                 State := Some (plan\<lparr>
                   ID := Known (Sprintf_d (et_ID t)),
                   Name := Known (et_Name t),
                   From := Known (et_From t),
                   ReplyTo := Known (et_ReplyTo t),
                   Subject := Known (et_Subject t),
                   Preheader := Known (et_Preheader t),
                   Html := Known (normalizeHTML (et_HTML t)),
                   IsHtmlEditable := Known (et_IsHTMLEditable t),
                   LandingPage := Known (et_LandingPageID t),
                   ImagePreviewUrl := Known (et_ImagePreviewURL t),
                   CreatedAt := (if ValueString (CreatedAt st) \<noteq> [] then CreatedAt st
                                 else Known (now 0)),
                   UpdatedAt := Known (now (if ValueString (CreatedAt st) \<noteq> [] then 0 else 1))\<rparr>)\<rparr>))"
    by (simp add: Update_def Let_def z State_Set_def StringValue_def BoolValue_def
        split: prod.splits option.splits)
  have dl: "\<not> HasError (Append (Diagnostics resp) ds) \<and> infobipClient r = Some c \<longrightarrow>
        Delete r \<lparr>delete_State = Data ds st\<rparr> resp =
          (case RemoveEmailTemplate (EmailAPI c) (resourceApiKey r) 0 of
             (httpResponse, Some e) \<Rightarrow>
               if (case httpResponse of None \<Rightarrow> False | Some h \<Rightarrow> StatusCode h = 404)
               then Return (resp\<lparr>Diagnostics := Append (Diagnostics resp) ds, State := None\<rparr>)
               else Return (resp\<lparr>Diagnostics :=
                 AddError (Append (Diagnostics resp) ds) ''Error Deleting Email Template''
                   [Lit ''An error was encountered while deleting the email template: '',
                    ErrorText e]\<rparr>)
           | (httpResponse, None) \<Rightarrow>
               Return (resp\<lparr>Diagnostics := Append (Diagnostics resp) ds, State := None\<rparr>))"
    by (simp add: Delete_def Let_def z RemoveResource_def split: prod.splits option.splits)
  have rz: "Read r \<lparr>read_State = Data ds st\<rparr> resp =
        Read (addressing_zero r) \<lparr>read_State = Data ds st\<rparr> resp"
    by (cases "infobipClient r") (simp_all add: Read_def Let_def z addressing_zero_client)
  have uz: "Update r now \<lparr>update_Plan = Data pd plan, update_State = Data ds st\<rparr> resp =
        Update (addressing_zero r) now \<lparr>update_Plan = Data pd plan, update_State = Data ds st\<rparr> resp"
    by (cases "infobipClient r") (simp_all add: Update_def Let_def z addressing_zero_client)
  have dz: "Delete r \<lparr>delete_State = Data ds st\<rparr> resp =
        Delete (addressing_zero r) \<lparr>delete_State = Data ds st\<rparr> resp"
    by (cases "infobipClient r") (simp_all add: Delete_def Let_def z addressing_zero_client)
  from s rz uz dz rd up dl show ?thesis by (intro conjI)
qed

theorem C10_unparsed_id_addresses_zero_witness:
  "(\<exists>e. Sscanf_d (S ''abc'') 0 = (0, 0, Some e)) \<and>
   Read (resource_of echo_service)
     \<lparr>read_State = Data [] (sample_model\<lparr>ID := Known (S ''abc'')\<rparr>)\<rparr> empty_response =
   Return \<lparr>Diagnostics = [],
           State = Some (sample_model\<lparr>
             ID := Known (S ''0''), Name := Known [], From := Known [], ReplyTo := Known [],
             Subject := Known [], Preheader := Known [], Html := Known [],
             IsHtmlEditable := Known False, LandingPage := Known [], ImagePreviewUrl := Known [],
             CreatedAt := Known [], UpdatedAt := Known []\<rparr>)\<rparr>"
proof -
  let ?st = "sample_model\<lparr>ID := Known (S ''abc'')\<rparr>"
  let ?c = "\<lparr>Host = S ''https://api.example.com'', EmailAPI = echo_service\<rparr>"
  have h: "\<not> begins_with_decimal_integer (dropWhile IsSpace (ValueString (ID ?st)))"
    by (simp add: begins_with_decimal_integer_def S_def isDigit_def isSign_def IsSpace_def)
  have n: "normalizeHTML [] = []"
    by (simp add: normalizeHTML_def ReplaceAll_def ReplaceAll_scan.simps TrimSpace_def Fields_def)
  note t = C10_unparsed_id_addresses_zero [OF h, where r = "resource_of echo_service" and ds = "[]"
        and resp = empty_response and pd = "[]" and plan = sample_model and now = "\<lambda>k. []"
        and c = ?c]
  have pre: "\<not> HasError (Append (Diagnostics empty_response) []) \<and>
             infobipClient (resource_of echo_service) = Some ?c"
    by (simp add: empty_response_def resource_of_def)
  have sc: "\<exists>e. Sscanf_d (S ''abc'') 0 = (0, 0, Some e)"
    using t [THEN conjunct1] by simp
  have "Read (resource_of echo_service) \<lparr>read_State = Data [] ?st\<rparr> empty_response =
          (case GetEmailTemplate (EmailAPI ?c) (resourceApiKey (resource_of echo_service)) 0 of
             (emailTemplate, httpResponse, Some e) \<Rightarrow>
               Return (empty_response\<lparr>Diagnostics :=
                 AddError (Append (Diagnostics empty_response) []) ''Error Reading HashiCups Order''
                   [Lit ''Could not read HashiCups order ID '', Rendered (ID ?st), Lit '': '',
                    ErrorText e]\<rparr>)
           | (None, httpResponse, None) \<Rightarrow> Panic
           | (Some t, httpResponse, None) \<Rightarrow>
               Return (empty_response\<lparr>
                 Diagnostics := Append (Diagnostics empty_response) [],
                 State := Some (?st\<lparr>
                   ID := Known (Sprintf_d (et_ID t)),
                   Name := Known (et_Name t),
                   From := Known (et_From t),
                   ReplyTo := Known (et_ReplyTo t),
                   Subject := Known (et_Subject t),
                   Preheader := Known (et_Preheader t),
                   Html := Known (normalizeHTML (et_HTML t)),
                   IsHtmlEditable := Known (et_IsHTMLEditable t),
                   LandingPage := Known (et_LandingPageID t),
                   ImagePreviewUrl := Known (et_ImagePreviewURL t),
                   CreatedAt := Known (et_CreatedAt t),
                   UpdatedAt := Known (et_UpdatedAt t)\<rparr>)\<rparr>))"
    using t [THEN conjunct2, THEN conjunct2, THEN conjunct2, THEN conjunct2, THEN conjunct1] pre
    by (rule mp)
  also have "\<dots> = Return \<lparr>Diagnostics = [],
           State = Some (sample_model\<lparr>
             ID := Known (S ''0''), Name := Known [], From := Known [], ReplyTo := Known [],
             Subject := Known [], Preheader := Known [], Html := Known [],
             IsHtmlEditable := Known False, LandingPage := Known [], ImagePreviewUrl := Known [],
             CreatedAt := Known [], UpdatedAt := Known []\<rparr>)\<rparr>"
    by (simp add: echo_service_def empty_response_def zero_template_def Sprintf_d_0 n)
  finally show ?thesis using sc by simp
qed

end
